theory Spec2Isabelle
  imports Main "HOL-Library.Word"
begin

unbundle bit_operations_syntax

section \<open>Numbers\<close>

text \<open>
  The program is JavaScript: every number of the process model is an IEEE-754 binary64
  value, and the float helpers narrow it to binary32 on its way into two register cells.
  A value is modelled by its bit pattern (\<open>64 word\<close>, \<open>32 word\<close>), a register cell by a
  \<open>16 word\<close>, a byte of a Buffer by an \<open>8 word\<close>.

  The arithmetic is round-to-nearest, ties-to-even, computed exactly on integers: a finite
  value is a pair \<open>(m, x)\<close> standing for \<open>m * 2 ^ x\<close>, and a result is rounded from a
  numerator, a denominator and a binary exponent. The generic functions take the width
  \<open>e\<close> of the exponent field and the width \<open>f\<close> of the fraction field: \<open>11\<close> and
  \<open>52\<close> for binary64, \<open>8\<close> and \<open>23\<close> for binary32.
\<close>

type_synonym reg = "16 word"
type_synonym byte = "8 word"
type_synonym float32 = "32 word"
type_synonym float64 = "64 word"

text \<open>The number of binary digits of a positive integer.\<close>

function blen :: "int \<Rightarrow> nat" where
  "blen n = (if n \<le> 0 then 0 else Suc (blen (n div 2)))"
  by pat_completeness auto
termination
  by (relation "measure nat") auto

declare blen.simps [simp del]

text \<open>The three fields of a bit pattern, read as an unsigned integer.\<close>

definition sign_of :: "nat \<Rightarrow> nat \<Rightarrow> int \<Rightarrow> bool" where
  "sign_of e f x = odd (x div 2 ^ (e + f))"

definition expo_of :: "nat \<Rightarrow> nat \<Rightarrow> int \<Rightarrow> int" where
  "expo_of e f x = (x div 2 ^ f) mod 2 ^ e"

definition frac_of :: "nat \<Rightarrow> nat \<Rightarrow> int \<Rightarrow> int" where
  "frac_of e f x = x mod 2 ^ f"

definition bias :: "nat \<Rightarrow> int" where
  "bias e = 2 ^ (e - 1) - 1"

definition is_nan :: "nat \<Rightarrow> nat \<Rightarrow> int \<Rightarrow> bool" where
  "is_nan e f x = (expo_of e f x = 2 ^ e - 1 \<and> frac_of e f x \<noteq> 0)"

definition is_inf :: "nat \<Rightarrow> nat \<Rightarrow> int \<Rightarrow> bool" where
  "is_inf e f x = (expo_of e f x = 2 ^ e - 1 \<and> frac_of e f x = 0)"

type_synonym dyadic = "int \<times> int"

text \<open>
  The exact value of a finite pattern: a subnormal (exponent field 0) has no hidden bit
  and the exponent of the smallest normal.
\<close>

definition valof :: "nat \<Rightarrow> nat \<Rightarrow> int \<Rightarrow> dyadic" where
  "valof e f x =
     (let m = (if expo_of e f x = 0 then frac_of e f x else 2 ^ f + frac_of e f x)
      in (if sign_of e f x then - m else m, max (expo_of e f x) 1 - bias e - int f))"

definition dy_add :: "dyadic \<Rightarrow> dyadic \<Rightarrow> dyadic" where
  "dy_add a b =
     (let x = min (snd a) (snd b)
      in (fst a * 2 ^ nat (snd a - x) + fst b * 2 ^ nat (snd b - x), x))"

definition dy_mul :: "dyadic \<Rightarrow> dyadic \<Rightarrow> dyadic" where
  "dy_mul a b = (fst a * fst b, snd a + snd b)"

definition dy_less :: "dyadic \<Rightarrow> dyadic \<Rightarrow> bool" where
  "dy_less a b =
     (let x = min (snd a) (snd b)
      in fst a * 2 ^ nat (snd a - x) < fst b * 2 ^ nat (snd b - x))"

text \<open>
  Rounding the positive value \<open>n / d * 2 ^ x\<close> to the exponent and fraction fields of the
  nearest representable value, ties to even. \<open>lg\<close> is the floor of the binary logarithm
  of the value, \<open>ue\<close> the exponent of the result before rounding (never below that of
  the subnormals), \<open>m\<close> the value in units of the last place. Adding \<open>m\<close> to the
  exponent field lets a carry out of the fraction move into the exponent; a result at or
  beyond the all-ones exponent is infinity.
\<close>

definition round_mag :: "nat \<Rightarrow> nat \<Rightarrow> int \<Rightarrow> int \<Rightarrow> int \<Rightarrow> int" where
  "round_mag e f n d x =
     (let dl = int (blen n) - int (blen d);
          lg = (if d * 2 ^ nat dl \<le> n * 2 ^ nat (- dl) then dl else dl - 1) + x;
          emin = 1 - bias e;
          ue = max lg emin;
          s = ue - int f - x;
          num = n * 2 ^ nat (- s);
          den = d * 2 ^ nat s;
          q = num div den;
          r = num mod den;
          m = (if den < 2 * r \<or> (2 * r = den \<and> odd q) then q + 1 else q);
          bits = (ue - emin) * 2 ^ f + m
      in min bits ((2 ^ e - 1) * 2 ^ f))"

definition round_to :: "nat \<Rightarrow> nat \<Rightarrow> bool \<Rightarrow> int \<Rightarrow> int \<Rightarrow> int \<Rightarrow> int" where
  "round_to e f neg n d x =
     (if neg then 2 ^ (e + f) else 0) + (if n = 0 then 0 else round_mag e f n d x)"

text \<open>
  The pattern of an exact value in each format; \<open>zneg\<close> is the sign to give an exact
  zero.
\<close>

definition f64_of :: "bool \<Rightarrow> dyadic \<Rightarrow> float64" where
  "f64_of zneg v =
     word_of_int (round_to 11 52 (if fst v = 0 then zneg else fst v < 0) \<bar>fst v\<bar> 1 (snd v))"

definition v64 :: "float64 \<Rightarrow> dyadic" where
  "v64 x = valof 11 52 (uint x)"

definition f32_of :: "bool \<Rightarrow> dyadic \<Rightarrow> float32" where
  "f32_of zneg v =
     word_of_int (round_to 8 23 (if fst v = 0 then zneg else fst v < 0) \<bar>fst v\<bar> 1 (snd v))"

definition v32 :: "float32 \<Rightarrow> dyadic" where
  "v32 x = valof 8 23 (uint x)"

definition NaN :: float64 where
  "NaN = 0x7FF8000000000000"

definition Infinity :: "bool \<Rightarrow> float64" where
  "Infinity neg = (if neg then 0xFFF0000000000000 else 0x7FF0000000000000)"

definition isNaN :: "float64 \<Rightarrow> bool" where
  "isNaN x = is_nan 11 52 (uint x)"

definition isInf :: "float64 \<Rightarrow> bool" where
  "isInf x = is_inf 11 52 (uint x)"

definition isFinite :: "float64 \<Rightarrow> bool" where
  "isFinite x = (expo_of 11 52 (uint x) \<noteq> 2047)"

definition sign64 :: "float64 \<Rightarrow> bool" where
  "sign64 x = sign_of 11 52 (uint x)"

text \<open>The operators \<open>+\<close>, \<open>-\<close>, \<open>*\<close>, \<open>/\<close>, \<open><\<close> and \<open>>\<close> on Numbers.\<close>

definition js_add :: "float64 \<Rightarrow> float64 \<Rightarrow> float64" where
  "js_add a b =
     (if isNaN a \<or> isNaN b then NaN
      else if isInf a then (if isInf b \<and> sign64 a \<noteq> sign64 b then NaN else a)
      else if isInf b then b
      else f64_of (sign64 a \<and> sign64 b) (dy_add (v64 a) (v64 b)))"

definition js_neg :: "float64 \<Rightarrow> float64" where
  "js_neg a = a XOR 0x8000000000000000"

definition js_sub :: "float64 \<Rightarrow> float64 \<Rightarrow> float64" where
  "js_sub a b = js_add a (js_neg b)"

definition js_mul :: "float64 \<Rightarrow> float64 \<Rightarrow> float64" where
  "js_mul a b =
     (let s = (sign64 a \<noteq> sign64 b) in
      if isNaN a \<or> isNaN b then NaN
      else if isInf a then (if \<not> isInf b \<and> fst (v64 b) = 0 then NaN else Infinity s)
      else if isInf b then (if fst (v64 a) = 0 then NaN else Infinity s)
      else f64_of s (dy_mul (v64 a) (v64 b)))"

definition js_div :: "float64 \<Rightarrow> float64 \<Rightarrow> float64" where
  "js_div a b =
     (let s = (sign64 a \<noteq> sign64 b) in
      if isNaN a \<or> isNaN b then NaN
      else if isInf a then (if isInf b then NaN else Infinity s)
      else if isInf b then (if s then 0x8000000000000000 else 0)
      else if fst (v64 b) = 0 then (if fst (v64 a) = 0 then NaN else Infinity s)
      else word_of_int
             (round_to 11 52 s \<bar>fst (v64 a)\<bar> \<bar>fst (v64 b)\<bar> (snd (v64 a) - snd (v64 b))))"

definition js_lt :: "float64 \<Rightarrow> float64 \<Rightarrow> bool" where
  "js_lt a b =
     (if isNaN a \<or> isNaN b then False
      else if isInf a then sign64 a \<and> \<not> (isInf b \<and> sign64 b)
      else if isInf b then \<not> sign64 b
      else dy_less (v64 a) (v64 b))"

definition js_gt :: "float64 \<Rightarrow> float64 \<Rightarrow> bool" where
  "js_gt a b = js_lt b a"

text \<open>
  The conversions a \<open>Float32Array\<close> store and load perform. Which NaN pattern is
  stored is left to the implementation by the language; the model stores the quiet NaN
  with an empty payload.
\<close>

definition float64_to_float32 :: "float64 \<Rightarrow> float32" where
  "float64_to_float32 x =
     (if isNaN x then 0x7FC00000
      else if isInf x then (if sign64 x then 0xFF800000 else 0x7F800000)
      else f32_of (sign64 x) (v64 x))"

definition float32_to_float64 :: "float32 \<Rightarrow> float64" where
  "float32_to_float64 x =
     (if is_nan 8 23 (uint x) then NaN
      else if is_inf 8 23 (uint x) then Infinity (sign_of 8 23 (uint x))
      else f64_of (sign_of 8 23 (uint x)) (v32 x))"

text \<open>
  A decimal literal \<open>n / d\<close> of the source denotes the nearest Number. The literals of
  the program, as patterns: \<open>0\<close>, \<open>0.1\<close>, \<open>2.0\<close>, \<open>7.0\<close>, \<open>7.5\<close>, \<open>12.0\<close>,
  \<open>30\<close> and \<open>10000\<close>.
\<close>

definition literal :: "int \<Rightarrow> int \<Rightarrow> float64" where
  "literal n d = word_of_int (round_to 11 52 (n < 0) \<bar>n\<bar> d 0)"

definition c0 :: float64 where "c0 = 0"
definition c0_1 :: float64 where "c0_1 = 0x3FB999999999999A"
definition c2_0 :: float64 where "c2_0 = 0x4000000000000000"
definition c7_0 :: float64 where "c7_0 = 0x401C000000000000"
definition c7_5 :: float64 where "c7_5 = 0x401E000000000000"
definition c12_0 :: float64 where "c12_0 = 0x4028000000000000"
definition c30 :: float64 where "c30 = 0x403E000000000000"
definition c10000 :: float64 where "c10000 = 0x40C3880000000000"

section \<open>Float helpers\<close>

text \<open>
  A \<open>Buffer\<close> is a list of bytes. \<open>Buffer.allocUnsafe\<close> promises nothing about the
  initial contents; the helpers overwrite all four bytes before they read any. The
  accessors are used at the offsets 0 and 2 of a four-byte buffer only, where Node's
  range checks pass.
\<close>

type_synonym buffer = "byte list"

definition allocUnsafe :: "nat \<Rightarrow> buffer" where
  "allocUnsafe n = replicate n 0"

definition writeFloatBE :: "float64 \<Rightarrow> nat \<Rightarrow> buffer \<Rightarrow> buffer" where
  "writeFloatBE val offset buf =
     (let w = float64_to_float32 val
      in buf[offset := ucast (drop_bit 24 w), offset + 1 := ucast (drop_bit 16 w),
             offset + 2 := ucast (drop_bit 8 w), offset + 3 := ucast w])"

definition readUInt16BE :: "buffer \<Rightarrow> nat \<Rightarrow> reg" where
  "readUInt16BE buf offset = push_bit 8 (ucast (buf ! offset)) OR ucast (buf ! (offset + 1))"

definition writeUInt16BE :: "reg \<Rightarrow> nat \<Rightarrow> buffer \<Rightarrow> buffer" where
  "writeUInt16BE val offset buf =
     buf[offset := ucast (drop_bit 8 val), offset + 1 := ucast val]"

definition readFloatBE :: "buffer \<Rightarrow> nat \<Rightarrow> float64" where
  "readFloatBE buf offset =
     float32_to_float64
       (push_bit 24 (ucast (buf ! offset)) OR push_bit 16 (ucast (buf ! (offset + 1))) OR
        push_bit 8 (ucast (buf ! (offset + 2))) OR ucast (buf ! (offset + 3)))"

definition float32ToRegisters :: "float64 \<Rightarrow> reg \<times> reg" where
  "float32ToRegisters val =
     (let buffer = writeFloatBE val 0 (allocUnsafe 4)
      in (readUInt16BE buffer 0, readUInt16BE buffer 2))"

definition registersToFloat32 :: "reg \<Rightarrow> reg \<Rightarrow> float64" where
  "registersToFloat32 reg1 reg2 =
     (let buffer = writeUInt16BE reg2 2 (writeUInt16BE reg1 0 (allocUnsafe 4))
      in readFloatBE buffer 0)"

text \<open>
  The register array is allocated with 1000 cells and no statement of the program changes
  its length: \<open>setFloat32Value\<close> and \<open>getFloat32Value\<close> are called at the start
  addresses 0, 2 and 4 only, inside the array. The theorems about them carry the length as
  a hypothesis.
\<close>

definition setFloat32Value :: "nat \<Rightarrow> float64 \<Rightarrow> reg list \<Rightarrow> reg list" where
  "setFloat32Value startAddr val holdingRegisters =
     (let regs = float32ToRegisters val
      in holdingRegisters[startAddr := fst regs, startAddr + 1 := snd regs])"

definition getFloat32Value :: "reg list \<Rightarrow> nat \<Rightarrow> float64" where
  "getFloat32Value holdingRegisters startAddr =
     registersToFloat32 (holdingRegisters ! startAddr) (holdingRegisters ! (startAddr + 1))"

section \<open>State\<close>

record chiller =
  leavingTempSettings :: float64
  enteringTemp :: float64
  leavingTemp :: float64

text \<open>
  The lines the register store and the publishing loop write to the console, as data. A
  published line carries the three values it prints (the source prints them with two
  decimals).
\<close>

datatype console_line =
    RegisterSet int reg
  | InvalidRegister int
  | CoilSet int bool
  | InvalidCoil int
  | ResetRequested
  | Published float64 float64 float64
  | PublishingPaused

record state =
  holdingRegisters :: "reg list"
  coils :: "int \<rightharpoonup> bool"
  chillerData :: chiller
  console :: "console_line list"

text \<open>A missing property of the \<open>coils\<close> object reads \<open>undefined\<close>, which is falsy.\<close>

definition truthy :: "bool option \<Rightarrow> bool" where
  "truthy v = (case v of None \<Rightarrow> False | Some b \<Rightarrow> b)"

text \<open>The module's initial values, before the server is initialised.\<close>

definition module_state :: state where
  "module_state =
     \<lparr>holdingRegisters = replicate 1000 0,
      coils = [300 \<mapsto> True, 301 \<mapsto> False, 302 \<mapsto> True],
      chillerData = \<lparr>leavingTempSettings = c7_0, enteringTemp = c12_0, leavingTemp = c7_5\<rparr>,
      console = []\<rparr>"

section \<open>The memory vector\<close>

definition getInputRegister :: "state \<Rightarrow> int \<Rightarrow> reg" where
  "getInputRegister s addr = 0"

definition getHoldingRegister :: "state \<Rightarrow> int \<Rightarrow> int \<Rightarrow> reg" where
  "getHoldingRegister s addr unitID =
     (if addr \<ge> 0 \<and> addr < int (length (holdingRegisters s))
      then holdingRegisters s ! nat addr
      else 0)"

definition setRegister :: "int \<Rightarrow> reg \<Rightarrow> state \<Rightarrow> state" where
  "setRegister addr val s =
     (if addr \<ge> 0 \<and> addr < int (length (holdingRegisters s))
      then s\<lparr>holdingRegisters := (holdingRegisters s)[nat addr := val],
             console := console s @ [RegisterSet addr val]\<rparr>
      else s\<lparr>console := console s @ [InvalidRegister addr]\<rparr>)"

definition getCoil :: "state \<Rightarrow> int \<Rightarrow> bool" where
  "getCoil s addr =
     (if addr \<ge> 300 \<and> addr \<le> 302
      then (case coils s addr of None \<Rightarrow> False | Some b \<Rightarrow> b)
      else False)"

definition setCoil :: "int \<Rightarrow> bool \<Rightarrow> state \<Rightarrow> state" where
  "setCoil addr val s =
     (if addr \<ge> 300 \<and> addr \<le> 302
      then s\<lparr>coils := (coils s)(addr \<mapsto> val),
             console := console s @ [CoilSet addr val]\<rparr>
      else s\<lparr>console := console s @ [InvalidCoil addr]\<rparr>)"

text \<open>
  The server calls the vector once per client request. A request and its answer, with the
  state after the call: the three getters leave the state as it is.
\<close>

datatype request =
    ReadInputRegister int
  | ReadHoldingRegister int int
  | WriteRegister int reg
  | ReadCoil int
  | WriteCoil int bool

datatype response = RegisterValue reg | CoilValue bool | Written

fun vector :: "request \<Rightarrow> state \<Rightarrow> response \<times> state" where
  "vector (ReadInputRegister addr) s = (RegisterValue (getInputRegister s addr), s)"
| "vector (ReadHoldingRegister addr unitID) s = (RegisterValue (getHoldingRegister s addr unitID), s)"
| "vector (WriteRegister addr val) s = (Written, setRegister addr val s)"
| "vector (ReadCoil addr) s = (CoilValue (getCoil s addr), s)"
| "vector (WriteCoil addr val) s = (Written, setCoil addr val s)"

section \<open>The publishing loop\<close>

definition initializeDefaultValues :: "state \<Rightarrow> state" where
  "initializeDefaultValues s =
     s\<lparr>holdingRegisters :=
         setFloat32Value 4 (leavingTemp (chillerData s))
           (setFloat32Value 2 (enteringTemp (chillerData s))
             (setFloat32Value 0 (leavingTempSettings (chillerData s)) (holdingRegisters s)))\<rparr>"

text \<open>
  What a tick takes from outside the program: the Number \<open>Date.now()\<close> returns and the
  function \<open>Math.sin\<close>, whose results the language leaves to the implementation.
\<close>

record env =
  Date_now :: float64
  Math_sin :: "float64 \<Rightarrow> float64"

text \<open>The four parts of the interval callback, in the order of the source.\<close>

definition handle_reset :: "state \<Rightarrow> state" where
  "handle_reset s =
     s\<lparr>console := console s @ [ResetRequested],
       chillerData := (chillerData s)
         \<lparr>leavingTempSettings := c7_0, enteringTemp := c12_0, leavingTemp := c7_5\<rparr>,
       coils := (coils s)(301 \<mapsto> False)\<rparr>"

definition read_setting :: "state \<Rightarrow> state" where
  "read_setting s =
     (let currentSetting = getFloat32Value (holdingRegisters s) 0
      in if js_gt currentSetting c0 \<and> js_lt currentSetting c30
         then s\<lparr>chillerData := (chillerData s)\<lparr>leavingTempSettings := currentSetting\<rparr>\<rparr>
         else s)"

definition simulate :: "env \<Rightarrow> state \<Rightarrow> state" where
  "simulate env s =
     (let time = js_div (Date_now env) c10000;
          cd1 = (chillerData s)\<lparr>enteringTemp := js_add c12_0 (js_mul (Math_sin env time) c2_0)\<rparr>;
          diff = js_sub (leavingTempSettings cd1) (leavingTemp cd1);
          cd2 = cd1\<lparr>leavingTemp := js_add (leavingTemp cd1) (js_mul diff c0_1)\<rparr>
      in s\<lparr>chillerData := cd2\<rparr>)"

definition publish :: "state \<Rightarrow> state" where
  "publish s =
     s\<lparr>holdingRegisters :=
         setFloat32Value 4 (leavingTemp (chillerData s))
           (setFloat32Value 2 (enteringTemp (chillerData s))
             (setFloat32Value 0 (leavingTempSettings (chillerData s)) (holdingRegisters s))),
       console := console s @
         [Published (leavingTempSettings (chillerData s)) (enteringTemp (chillerData s))
            (leavingTemp (chillerData s))]\<rparr>"

text \<open>The three control coils are read once, before anything else.\<close>

definition tick :: "env \<Rightarrow> state \<Rightarrow> state" where
  "tick env s =
     (let publishEnabled = truthy (coils s 300);
          resetRequested = truthy (coils s 301);
          simulationEnabled = truthy (coils s 302);
          s1 = (if resetRequested then handle_reset s else s);
          s2 = read_setting s1;
          s3 = (if simulationEnabled then simulate env s2 else s2)
      in if publishEnabled then publish s3
         else s3\<lparr>console := console s3 @ [PublishingPaused]\<rparr>)"

text \<open>
  A run of the program: the server is initialised, then client requests and ticks follow
  one another in any order.
\<close>

datatype event = Request request | Tick env

fun step :: "event \<Rightarrow> state \<Rightarrow> state" where
  "step (Request r) s = snd (vector r s)"
| "step (Tick env) s = tick env s"

definition initial_state :: state where
  "initial_state = initializeDefaultValues module_state"

definition run :: "event list \<Rightarrow> state" where
  "run evs = fold step evs initial_state"

section \<open>Example inputs\<close>

text \<open>
  An environment for the examples: the clock reads 0, so the sine is taken at \<open>+0\<close>
  only, where \<open>Math.sin\<close> returns \<open>+0\<close> in every implementation, as this one does.
\<close>

definition env0 :: env where
  "env0 = \<lparr>Date_now = 0, Math_sin = (\<lambda>x. x)\<rparr>"

text \<open>A client has paused publishing (coil 300 off).\<close>

definition paused_state :: state where
  "paused_state = setCoil 300 False initial_state"

text \<open>A client has switched the simulation off (coil 302 off).\<close>

definition still_state :: state where
  "still_state = setCoil 302 False initial_state"

text \<open>
  A client has written 15.0 to the setting registers (cells \<open>0x4170\<close> and
  \<open>0x0000\<close>), and nothing else.
\<close>

definition written_state :: state where
  "written_state = setRegister 1 0 (setRegister 0 0x4170 initial_state)"

text \<open>The same, and a reset is requested (coil 301 on).\<close>

definition reset_state :: state where
  "reset_state = setCoil 301 True written_state"

text \<open>
  A client has written 35.0 to the setting registers (cells \<open>0x420C\<close> and
  \<open>0x0000\<close>) and has requested a reset; then with the simulation switched off as well.
\<close>

definition reset_rejected_state :: state where
  "reset_rejected_state =
     setCoil 301 True (setRegister 1 0 (setRegister 0 0x420C initial_state))"

definition reset_still_state :: state where
  "reset_still_state = setCoil 302 False reset_rejected_state"

text \<open>A client has written to register 9, which no tick reads.\<close>

definition other_state :: state where
  "other_state = setRegister 9 0x1234 initial_state"

section \<open>The literals and the float helpers\<close>

lemma literals:
  "c0 = literal 0 1" "c0_1 = literal 1 10" "c2_0 = literal 20 10" "c7_0 = literal 70 10"
  "c7_5 = literal 75 10" "c12_0 = literal 120 10" "c30 = literal 30 1" "c10000 = literal 10000 1"
  by code_simp+

text \<open>
  The arithmetic against results every IEEE-754 implementation gives: \<open>0.1 + 0.2\<close>,
  \<open>1 / 3\<close>, \<open>0.1 * 3\<close>, \<open>7.5 + (7.0 - 7.5) * 0.1 = 7.45\<close>, and 0.1 and 3.14159 in
  single precision.
\<close>

lemma arithmetic_examples:
  "js_add (literal 1 10) (literal 2 10) = 0x3FD3333333333334"
  "js_div (literal 1 1) (literal 3 1) = 0x3FD5555555555555"
  "js_mul (literal 1 10) (literal 3 1) = 0x3FD3333333333334"
  "js_add c7_5 (js_mul (js_sub c7_0 c7_5) c0_1) = literal 745 100"
  "float64_to_float32 (literal 1 10) = 0x3DCCCCCD"
  "float32_to_float64 0x3DCCCCCD = 0x3FB99999A0000000"
  "float64_to_float32 (literal 314159 100000) = 0x40490FD0"
  by code_simp+

lemma allocUnsafe_4: "allocUnsafe 4 = [0, 0, 0, 0]"
  by (simp add: allocUnsafe_def numeral_eq_Suc)

lemma nth_numerals:
  "(a # b # c # d # xs) ! 2 = c" "(a # b # c # d # xs) ! 3 = d"
  by (simp_all add: numeral_eq_Suc)

lemma update_numerals:
  "(a # b # c # d # xs)[2 := y] = a # b # y # d # xs"
  "(a # b # c # d # xs)[3 := y] = a # b # c # y # xs"
  by (simp_all add: numeral_eq_Suc)

text \<open>Two bytes make a cell, two cells make the pattern: nothing is lost on the way.\<close>

lemma high_cell:
  fixes w :: float32
  shows "push_bit 8 (ucast (ucast (drop_bit 24 w) :: byte)) OR ucast (ucast (drop_bit 16 w) :: byte)
         = (ucast (drop_bit 16 w) :: reg)"
  apply (rule bit_word_eqI)
  apply (simp add: bit_simps)
  apply (auto simp: add.commute)
  done

lemma low_cell:
  fixes w :: float32
  shows "push_bit 8 (ucast (ucast (drop_bit 8 w) :: byte)) OR ucast (ucast w :: byte)
         = (ucast w :: reg)"
  apply (rule bit_word_eqI)
  apply (simp add: bit_simps)
  apply (auto simp: add.commute)
  done

lemma four_bytes:
  fixes r1 r2 :: reg
  shows "push_bit 24 (ucast (ucast (drop_bit 8 r1) :: byte)) OR
         push_bit 16 (ucast (ucast r1 :: byte)) OR
         push_bit 8 (ucast (ucast (drop_bit 8 r2) :: byte)) OR ucast (ucast r2 :: byte)
         = (push_bit 16 (ucast r1) OR ucast r2 :: float32)"
  apply (rule bit_word_eqI)
  apply (simp add: bit_simps)
  apply (auto simp: add.commute dest: bit_imp_le_length)
  done

lemma cells_join:
  fixes w :: float32
  shows "push_bit 16 (ucast (ucast (drop_bit 16 w) :: reg)) OR ucast (ucast w :: reg) = w"
  apply (rule bit_word_eqI)
  apply (simp add: bit_simps)
  apply (auto simp: add.commute)
  done

lemma float32ToRegisters_bits:
  "float32ToRegisters v =
     (ucast (drop_bit 16 (float64_to_float32 v)), ucast (float64_to_float32 v))"
  by (simp add: float32ToRegisters_def writeFloatBE_def readUInt16BE_def allocUnsafe_4 Let_def
      nth_numerals update_numerals high_cell low_cell)

lemma registersToFloat32_bits:
  "registersToFloat32 r1 r2 = float32_to_float64 (push_bit 16 (ucast r1) OR ucast r2)"
  by (simp add: registersToFloat32_def writeUInt16BE_def readFloatBE_def allocUnsafe_4 Let_def
      nth_numerals update_numerals four_bytes)

lemma registers_roundtrip:
  "registersToFloat32 (fst (float32ToRegisters v)) (snd (float32ToRegisters v)) =
     float32_to_float64 (float64_to_float32 v)"
  by (simp only: float32ToRegisters_bits registersToFloat32_bits fst_conv snd_conv cells_join)

section \<open>The number model on representable values\<close>

text \<open>
  Rounding the exact value of a finite pattern gives the pattern back, rounding depends on
  the value only and not on how it is scaled, and so narrowing a widened single-precision
  value gives the pattern back: the codec loses nothing on single-precision values.
\<close>

lemma blen_bounds: "0 < n \<Longrightarrow> 2 ^ (blen n - 1) \<le> n \<and> n < 2 ^ blen n"
proof (induction n rule: blen.induct)
  case (1 n)
  show ?case
  proof (cases "n div 2 = 0")
    case True
    with "1.prems" have "n = 1" by presburger
    then show ?thesis
      by (simp add: blen.simps)
  next
    case False
    with "1.prems" have half: "0 < n div 2" by presburger
    with "1.IH" "1.prems" have ih: "2 ^ (blen (n div 2) - 1) \<le> n div 2" "n div 2 < 2 ^ blen (n div 2)"
      by simp_all
    from half have pos: "0 < blen (n div 2)"
      by (simp add: blen.simps [of "n div 2"])
    have unf: "blen n = Suc (blen (n div 2))"
      using "1.prems" by (simp add: blen.simps [of n])
    from pos have "(2::int) ^ blen (n div 2) = 2 * 2 ^ (blen (n div 2) - 1)"
      by (cases "blen (n div 2)") simp_all
    with ih(1) have lower: "2 ^ blen (n div 2) \<le> n" by presburger
    from ih(2) have upper: "n < 2 * 2 ^ blen (n div 2)" by presburger
    from lower upper unf show ?thesis by simp
  qed
qed

lemma blen_unique:
  assumes "2 ^ k \<le> n" and "n < 2 ^ Suc k"
  shows "blen n = Suc k"
proof -
  have "(0::int) < 2 ^ k"
    by simp
  with assms(1) have pos: "0 < n"
    by linarith
  from blen_bounds [OF pos] have b: "2 ^ (blen n - 1) \<le> n" "n < 2 ^ blen n"
    by simp_all
  from b(1) assms(2) have "(2::int) ^ (blen n - 1) < 2 ^ Suc k" by linarith
  then have "blen n - 1 < Suc k" by (simp only: power_strict_increasing_iff) 
  moreover from assms(1) b(2) have "(2::int) ^ k < 2 ^ blen n" by linarith
  then have "k < blen n" by (simp only: power_strict_increasing_iff)
  ultimately show ?thesis by linarith
qed


lemma round_mag_unfold:
  assumes dl: "int (blen n) - int (blen d) = dl"
    and lg: "(if d * 2 ^ nat dl \<le> n * 2 ^ nat (- dl) then dl else dl - 1) + x = lg"
    and ue: "max lg (1 - bias e) = ue"
    and s: "ue - int f - x = s"
    and q: "(n * 2 ^ nat (- s)) div (d * 2 ^ nat s) = q"
    and r: "(n * 2 ^ nat (- s)) mod (d * 2 ^ nat s) = r"
    and m: "(if d * 2 ^ nat s < 2 * r \<or> (2 * r = d * 2 ^ nat s \<and> odd q) then q + 1 else q) = m"
  shows "round_mag e f n d x = min ((ue - (1 - bias e)) * 2 ^ f + m) ((2 ^ e - 1) * 2 ^ f)"
  unfolding round_mag_def Let_def dl lg ue s q r m ..

lemma round_mag_normal:
  assumes "1 \<le> E" and "E < 2 ^ e - 1" and "0 \<le> F" and "F < 2 ^ f"
  shows "round_mag e f (2 ^ f + F) 1 (E - bias e - int f) = E * 2 ^ f + F"
proof -
  have bl: "blen (2 ^ f + F) = Suc f"
    using assms(3,4) by (intro blen_unique) simp_all
  have b1: "blen 1 = 1"
    by (simp add: blen.simps)
  have dl: "int (blen (2 ^ f + F)) - int (blen 1) = int f"
    by (simp add: bl b1)
  have lg: "(if 1 * 2 ^ nat (int f) \<le> (2 ^ f + F) * 2 ^ nat (- int f) then int f else int f - 1)
      + (E - bias e - int f) = E - bias e"
    using assms(3) by simp
  have ue: "max (E - bias e) (1 - bias e) = E - bias e"
    using assms(1) by simp
  have s: "E - bias e - int f - (E - bias e - int f) = 0"
    by simp
  have q: "((2 ^ f + F) * 2 ^ nat (- 0)) div (1 * 2 ^ nat 0) = 2 ^ f + F"
    and r: "((2 ^ f + F) * 2 ^ nat (- 0)) mod (1 * 2 ^ nat 0) = 0"
    by simp_all
  have m: "(if (1::int) * 2 ^ nat 0 < 2 * (0::int) \<or>
        (2 * (0::int) = 1 * 2 ^ nat 0 \<and> odd (2 ^ f + F))
      then 2 ^ f + F + 1 else 2 ^ f + F) = 2 ^ f + F"
    by simp
  have "E * 2 ^ f + F < (E + 1) * 2 ^ f"
    using assms(4) by (simp add: distrib_right)
  also have "\<dots> \<le> (2 ^ e - 1) * 2 ^ f"
    using assms(2) by (intro mult_right_mono) simp_all
  finally have below: "E * 2 ^ f + F < (2 ^ e - 1) * 2 ^ f" .
  have bits: "(E - bias e - (1 - bias e)) * 2 ^ f + (2 ^ f + F) = E * 2 ^ f + F"
    by (simp add: left_diff_distrib)
  show ?thesis
    unfolding round_mag_unfold [OF dl lg ue s q r m] bits
    using below by simp
qed

lemma round_mag_subnormal:
  assumes "0 < F" and "F < 2 ^ f" and "0 < e"
  shows "round_mag e f F 1 (1 - bias e - int f) = F"
proof -
  from blen_bounds [OF assms(1)] assms(2) have "(2::int) ^ (blen F - 1) < 2 ^ f"
    by linarith
  then have small: "blen F - 1 < f"
    by (simp only: power_strict_increasing_iff)
  from assms(1) have pos: "0 < blen F"
    by (simp add: blen.simps [of F])
  have b1: "blen 1 = 1"
    by (simp add: blen.simps)
  have dl: "int (blen F) - int (blen 1) = int (blen F - 1)"
    using pos by (simp add: b1)
  from blen_bounds [OF assms(1)]
  have lg: "(if 1 * 2 ^ nat (int (blen F - 1)) \<le> F * 2 ^ nat (- int (blen F - 1))
      then int (blen F - 1) else int (blen F - 1) - 1)
      + (1 - bias e - int f) = int (blen F - 1) + (1 - bias e - int f)"
    by simp
  have ue: "max (int (blen F - 1) + (1 - bias e - int f)) (1 - bias e) = 1 - bias e"
    using small by simp
  have s: "1 - bias e - int f - (1 - bias e - int f) = 0"
    by simp
  have q: "(F * 2 ^ nat (- 0)) div (1 * 2 ^ nat 0) = F"
    and r: "(F * 2 ^ nat (- 0)) mod (1 * 2 ^ nat 0) = 0"
    by simp_all
  have m: "(if (1::int) * 2 ^ nat 0 < 2 * (0::int) \<or>
        (2 * (0::int) = 1 * 2 ^ nat 0 \<and> odd F) then F + 1 else F) = F"
    by simp
  have two: "(2::int) \<le> 2 ^ e"
    using assms(3) by (cases e) simp_all
  have "(1::int) * 2 ^ f \<le> (2 ^ e - 1) * 2 ^ f"
    by (rule mult_right_mono) (use two in simp_all)
  then have "(2::int) ^ f \<le> (2 ^ e - 1) * 2 ^ f"
    by (simp only: mult_1)
  with assms(2) have below: "F < (2 ^ e - 1) * 2 ^ f"
    by linarith
  show ?thesis
    unfolding round_mag_unfold [OF dl lg ue s q r m]
    using below by simp
qed


lemma fields_bounds:
  "0 \<le> frac_of e f X" "frac_of e f X < 2 ^ f" "0 \<le> expo_of e f X" "expo_of e f X < 2 ^ e"
  by (simp_all add: frac_of_def expo_of_def)

lemma fields_join:
  assumes "0 \<le> X" and "X < 2 ^ (e + f + 1)"
  shows "(if sign_of e f X then 2 ^ (e + f) else 0) + expo_of e f X * 2 ^ f + frac_of e f X = X"
proof -
  have top: "X div 2 ^ (e + f) = 0 \<or> X div 2 ^ (e + f) = 1"
  proof -
    have "0 \<le> X mod 2 ^ (e + f)"
      by simp
    with div_mult_mod_eq [of X "2 ^ (e + f)"] have "X div 2 ^ (e + f) * 2 ^ (e + f) \<le> X"
      by linarith
    moreover have "(2::int) ^ (e + f + 1) = 2 * 2 ^ (e + f)"
      by simp
    ultimately have "X div 2 ^ (e + f) * 2 ^ (e + f) < 2 * 2 ^ (e + f)"
      using assms(2) by linarith
    then have "X div 2 ^ (e + f) < 2"
      by (rule mult_right_less_imp_less) simp
    moreover have "0 \<le> X div 2 ^ (e + f)"
      using assms(1) by (simp add: pos_imp_zdiv_nonneg_iff)
    ultimately show ?thesis by linarith
  qed
  have "X div 2 ^ (e + f) = X div (2 ^ f * 2 ^ e)"
    by (simp only: power_add mult.commute)
  also have "\<dots> = X div 2 ^ f div 2 ^ e"
    by (rule zdiv_zmult2_eq) simp
  finally have "X div 2 ^ f div 2 ^ e = X div 2 ^ (e + f)"
    by simp
  then have high: "X div 2 ^ f = X div 2 ^ (e + f) * 2 ^ e + expo_of e f X"
    unfolding expo_of_def using div_mult_mod_eq [of "X div 2 ^ f" "2 ^ e"] by simp
  have "X = X div 2 ^ f * 2 ^ f + frac_of e f X"
    unfolding frac_of_def by (rule div_mult_mod_eq [symmetric])
  also have "\<dots> = X div 2 ^ (e + f) * 2 ^ (e + f) + expo_of e f X * 2 ^ f + frac_of e f X"
    by (simp add: high distrib_right power_add)
  finally have "X div 2 ^ (e + f) * 2 ^ (e + f) + expo_of e f X * 2 ^ f + frac_of e f X = X"
    by simp
  with top show ?thesis
    by (auto simp: sign_of_def)
qed

lemma valof_subnormal:
  "expo_of e f X = 0 \<Longrightarrow>
   valof e f X =
     (if sign_of e f X then - frac_of e f X else frac_of e f X, 1 - bias e - int f)"
  by (simp add: valof_def)

lemma valof_normal:
  "1 \<le> expo_of e f X \<Longrightarrow>
   valof e f X =
     (if sign_of e f X then - (2 ^ f + frac_of e f X) else 2 ^ f + frac_of e f X,
      expo_of e f X - bias e - int f)"
  by (simp add: valof_def max_def)

lemma hidden_bit_pos: "0 < 2 ^ f + frac_of e f X"
proof -
  have "(0::int) < 2 ^ f"
    by simp
  with fields_bounds(1) [of e f X] show ?thesis
    by linarith
qed

lemma valof_sign:
  "(if fst (valof e f X) = 0 then sign_of e f X else fst (valof e f X) < 0) = sign_of e f X"
proof (cases "expo_of e f X = 0")
  case True
  with fields_bounds(1) [of e f X] show ?thesis
    by (auto simp: valof_subnormal)
next
  case False
  with fields_bounds(3) [of e f X] have "1 \<le> expo_of e f X"
    by simp
  with hidden_bit_pos [of f e X] show ?thesis
    by (auto simp: valof_normal)
qed

lemma round_to_valof:
  assumes "0 \<le> X" and "X < 2 ^ (e + f + 1)" and "0 < e" and "expo_of e f X \<noteq> 2 ^ e - 1"
  shows "round_to e f (sign_of e f X) \<bar>fst (valof e f X)\<bar> 1 (snd (valof e f X)) = X"
proof -
  have "round_to e f (sign_of e f X) \<bar>fst (valof e f X)\<bar> 1 (snd (valof e f X)) =
      (if sign_of e f X then 2 ^ (e + f) else 0) + expo_of e f X * 2 ^ f + frac_of e f X"
  proof (cases "expo_of e f X = 0")
    case True
    show ?thesis
    proof (cases "frac_of e f X = 0")
      case zero: True
      with True show ?thesis
        by (simp add: round_to_def valof_subnormal)
    next
      case False
      with fields_bounds(1) [of e f X] have pos: "0 < frac_of e f X"
        by simp
      then have mag: "\<bar>if sign_of e f X then - frac_of e f X else frac_of e f X\<bar> = frac_of e f X"
        by simp
      from round_mag_subnormal [OF pos fields_bounds(2) assms(3)] True False
      show ?thesis
        by (simp add: round_to_def valof_subnormal mag)
    qed
  next
    case False
    with fields_bounds(3) [of e f X] have one: "1 \<le> expo_of e f X"
      by simp
    from fields_bounds(4) [of e f X] assms(4) have top: "expo_of e f X < 2 ^ e - 1"
      by simp
    note pos = hidden_bit_pos [of f e X]
    then have mag: "\<bar>if sign_of e f X then - (2 ^ f + frac_of e f X)
        else 2 ^ f + frac_of e f X\<bar> = 2 ^ f + frac_of e f X"
      by simp
    from pos have nz: "2 ^ f + frac_of e f X \<noteq> 0"
      by simp
    from round_mag_normal [OF one top fields_bounds(1) fields_bounds(2)]
    show ?thesis
      by (simp add: round_to_def valof_normal [OF one] mag nz)
  qed
  also have "\<dots> = X"
    by (rule fields_join [OF assms(1,2)])
  finally show ?thesis .
qed

lemma f64_of_v64:
  assumes "isFinite x"
  shows "f64_of (sign64 x) (v64 x) = x"
proof -
  have "uint x < 2 ^ (11 + 52 + 1)"
    using uint_bounded [of x] by simp
  moreover have "expo_of 11 52 (uint x) \<noteq> 2 ^ 11 - 1"
    using assms by (simp add: isFinite_def)
  ultimately have "round_to 11 52 (sign_of 11 52 (uint x)) \<bar>fst (valof 11 52 (uint x))\<bar> 1
      (snd (valof 11 52 (uint x))) = uint x"
    by (intro round_to_valof) simp_all
  then show ?thesis
    by (simp add: f64_of_def v64_def sign64_def valof_sign)
qed

lemma f32_of_v32:
  assumes "expo_of 8 23 (uint w) \<noteq> 255"
  shows "f32_of (sign_of 8 23 (uint w)) (v32 w) = w"
proof -
  have "uint w < 2 ^ (8 + 23 + 1)"
    using uint_bounded [of w] by simp
  moreover have "expo_of 8 23 (uint w) \<noteq> 2 ^ 8 - 1"
    using assms by simp
  ultimately have "round_to 8 23 (sign_of 8 23 (uint w)) \<bar>fst (valof 8 23 (uint w))\<bar> 1
      (snd (valof 8 23 (uint w))) = uint w"
    by (intro round_to_valof) simp_all
  then show ?thesis
    by (simp add: f32_of_def v32_def valof_sign)
qed

lemma blen_shift:
  assumes "0 < n"
  shows "blen (n * 2 ^ j) = blen n + j"
proof -
  from blen_bounds [OF assms] have b: "2 ^ (blen n - 1) \<le> n" "n < 2 ^ blen n"
    by simp_all
  from assms have pos: "0 < blen n"
    by (simp add: blen.simps [of n])
  have "(2::int) ^ (blen n - 1 + j) = 2 ^ (blen n - 1) * 2 ^ j"
    by (simp add: power_add)
  also have "\<dots> \<le> n * 2 ^ j"
    using b(1) by (intro mult_right_mono) simp_all
  finally have lower: "2 ^ (blen n - 1 + j) \<le> n * 2 ^ j" .
  have "n * 2 ^ j < 2 ^ blen n * 2 ^ j"
    using b(2) by (intro mult_strict_right_mono) simp_all
  also have "\<dots> = 2 ^ Suc (blen n - 1 + j)"
    using pos by (simp add: power_add [symmetric])
  finally have upper: "n * 2 ^ j < 2 ^ Suc (blen n - 1 + j)" .
  from blen_unique [OF lower upper] pos show ?thesis
    by simp
qed

lemma ties_scale:
  fixes num den c :: int
  assumes "0 < c"
  shows "(if den * c < 2 * ((num * c) mod (den * c)) \<or>
             (2 * ((num * c) mod (den * c)) = den * c \<and> odd ((num * c) div (den * c)))
          then (num * c) div (den * c) + 1 else (num * c) div (den * c)) =
         (if den < 2 * (num mod den) \<or> (2 * (num mod den) = den \<and> odd (num div den))
          then num div den + 1 else num div den)"
proof -
  have q: "(num * c) div (den * c) = num div den"
    using assms by simp
  have r: "(num * c) mod (den * c) = (num mod den) * c"
    using assms by (simp add: mult_mod_left mult.commute)
  have lt: "den * c < 2 * ((num mod den) * c) \<longleftrightarrow> den < 2 * (num mod den)"
    using assms by (simp add: mult.assoc [symmetric])
  have eq: "2 * ((num mod den) * c) = den * c \<longleftrightarrow> 2 * (num mod den) = den"
    using assms by (simp add: mult.assoc [symmetric])
  show ?thesis
    by (simp only: q r lt eq)
qed

lemma round_mag_scale:
  assumes "0 < n"
  shows "round_mag e f (n * 2 ^ j) 1 (x - int j) = round_mag e f n 1 x"
proof -
  from assms have pos: "0 < blen n"
    by (simp add: blen.simps [of n])
  have b1: "blen 1 = 1"
    by (simp add: blen.simps)
  from blen_bounds [OF assms] have low: "2 ^ (blen n - 1) \<le> n"
    by simp
  define U where "U = max (int (blen n - 1) + x) (1 - bias e)"
  define S where "S = U - int f - x"
  define k where "k = nat (S + int j) - nat S"
  have kn: "j + nat (- S - int j) = nat (- S) + k" and kd: "nat (S + int j) = nat S + k"
    unfolding k_def by linarith+
  have dl: "int (blen n) - int (blen 1) = int (blen n - 1)"
    using pos by (simp add: b1)
  have lg: "(if 1 * 2 ^ nat (int (blen n - 1)) \<le> n * 2 ^ nat (- int (blen n - 1))
      then int (blen n - 1) else int (blen n - 1) - 1) + x = int (blen n - 1) + x"
    using low by simp
  have right: "round_mag e f n 1 x =
      min ((U - (1 - bias e)) * 2 ^ f +
        (if 1 * 2 ^ nat S < 2 * ((n * 2 ^ nat (- S)) mod (1 * 2 ^ nat S)) \<or>
            (2 * ((n * 2 ^ nat (- S)) mod (1 * 2 ^ nat S)) = 1 * 2 ^ nat S \<and>
             odd ((n * 2 ^ nat (- S)) div (1 * 2 ^ nat S)))
         then (n * 2 ^ nat (- S)) div (1 * 2 ^ nat S) + 1
         else (n * 2 ^ nat (- S)) div (1 * 2 ^ nat S)))
        ((2 ^ e - 1) * 2 ^ f)"
    by (rule round_mag_unfold [OF dl lg U_def [symmetric] S_def [symmetric] refl refl refl])
  have dl': "int (blen (n * 2 ^ j)) - int (blen 1) = int (blen n - 1 + j)"
    using pos by (simp add: b1 blen_shift [OF assms])
  have "(2::int) ^ (blen n - 1 + j) \<le> n * 2 ^ j"
    using low by (simp add: power_add mult_right_mono)
  then have lg': "(if 1 * 2 ^ nat (int (blen n - 1 + j)) \<le>
        n * 2 ^ j * 2 ^ nat (- int (blen n - 1 + j))
      then int (blen n - 1 + j) else int (blen n - 1 + j) - 1) + (x - int j) =
      int (blen n - 1) + x"
    unfolding nat_int nat_zminus_int by simp
  have S': "U - int f - (x - int j) = S + int j"
    by (simp add: S_def)
  have left: "round_mag e f (n * 2 ^ j) 1 (x - int j) =
      min ((U - (1 - bias e)) * 2 ^ f +
        (if 1 * 2 ^ nat (S + int j) <
              2 * ((n * 2 ^ j * 2 ^ nat (- (S + int j))) mod (1 * 2 ^ nat (S + int j))) \<or>
            (2 * ((n * 2 ^ j * 2 ^ nat (- (S + int j))) mod (1 * 2 ^ nat (S + int j))) =
               1 * 2 ^ nat (S + int j) \<and>
             odd ((n * 2 ^ j * 2 ^ nat (- (S + int j))) div (1 * 2 ^ nat (S + int j))))
         then (n * 2 ^ j * 2 ^ nat (- (S + int j))) div (1 * 2 ^ nat (S + int j)) + 1
         else (n * 2 ^ j * 2 ^ nat (- (S + int j))) div (1 * 2 ^ nat (S + int j))))
        ((2 ^ e - 1) * 2 ^ f)"
    by (rule round_mag_unfold [OF dl' lg' U_def [symmetric] S' refl refl refl])
  have num: "n * 2 ^ j * 2 ^ nat (- (S + int j)) = (n * 2 ^ nat (- S)) * (2::int) ^ k"
  proof -
    have "n * 2 ^ j * 2 ^ nat (- (S + int j)) = n * (2::int) ^ (j + nat (- S - int j))"
      by (simp add: power_add algebra_simps)
    also have "\<dots> = n * 2 ^ (nat (- S) + k)"
      by (simp only: kn)
    finally show ?thesis
      by (simp add: power_add)
  qed
  have den: "1 * 2 ^ nat (S + int j) = (1 * 2 ^ nat S) * (2::int) ^ k"
    by (simp add: kd power_add)
  have c: "(0::int) < 2 ^ k"
    by simp
  show ?thesis
    unfolding left right num den
    by (simp only: ties_scale [OF c])
qed

lemma fields_of_join:
  assumes "0 \<le> F" and "F < 2 ^ f" and "0 \<le> E" and "E < 2 ^ e"
    and Y_def: "Y = (if s then 2 ^ (e + f) else 0) + E * 2 ^ f + F"
  shows "frac_of e f Y = F" and "expo_of e f Y = E" and "sign_of e f Y = s"
    and "0 \<le> Y" and "Y < 2 ^ (e + f + 1)"
proof -
  have Y: "Y = ((if s then 2 ^ e else 0) + E) * 2 ^ f + F"
    by (simp add: Y_def distrib_right power_add)
  show "frac_of e f Y = F"
    unfolding frac_of_def Y using assms(1,2) by simp
  have hi: "Y div 2 ^ f = (if s then 2 ^ e else 0) + E"
    unfolding Y using assms(1,2) by simp
  show "expo_of e f Y = E"
    unfolding expo_of_def hi using assms(3,4) by simp
  have "Y div 2 ^ (e + f) = Y div (2 ^ f * 2 ^ e)"
    by (simp only: power_add mult.commute)
  also have "\<dots> = Y div 2 ^ f div 2 ^ e"
    by (rule zdiv_zmult2_eq) simp
  also have "\<dots> = (if s then 1 else 0)"
  proof -
    have "E div 2 ^ e = 0"
      using assms(3,4) by simp
    moreover have "(2 ^ e + E) div 2 ^ e = E div 2 ^ e + 1"
      by (rule div_add_self1) simp
    ultimately show ?thesis
      unfolding hi by simp
  qed
  finally show "sign_of e f Y = s"
    by (simp add: sign_of_def)
  show "0 \<le> Y"
    unfolding Y_def using assms(1,3) by simp
  have "E * 2 ^ f + F < (E + 1) * 2 ^ f"
    using assms(2) by (simp add: distrib_right)
  also have "\<dots> \<le> 2 ^ e * 2 ^ f"
    using assms(4) by (intro mult_right_mono) simp_all
  finally have "E * 2 ^ f + F < 2 ^ (e + f)"
    by (simp add: power_add)
  moreover have "(0::int) < 2 ^ (e + f)" and "(2::int) ^ (e + f + 1) = 2 * 2 ^ (e + f)"
    by simp_all
  ultimately have "2 ^ (e + f) + E * 2 ^ f + F < 2 ^ (e + f + 1)"
    and "0 + E * 2 ^ f + F < 2 ^ (e + f + 1)"
    by linarith+
  then show "Y < 2 ^ (e + f + 1)"
    unfolding Y_def by (cases s) (simp_all only: if_True if_False)
qed

lemma round_mag_any:
  assumes "0 < m" and "blen m \<le> Suc f"
    and "1 \<le> int (blen m) - 1 + x + bias e" and "int (blen m) - 1 + x + bias e < 2 ^ e - 1"
  shows "round_mag e f m 1 x =
           (int (blen m) - 1 + x + bias e) * 2 ^ f + (m * 2 ^ (Suc f - blen m) - 2 ^ f)"
    and "0 \<le> m * 2 ^ (Suc f - blen m) - 2 ^ f"
    and "m * 2 ^ (Suc f - blen m) - 2 ^ f < 2 ^ f"
proof -
  define j where "j = Suc f - blen m"
  define F where "F = m * 2 ^ j - 2 ^ f"
  from assms(1) have pos: "0 < blen m"
    by (simp add: blen.simps [of m])
  from blen_bounds [OF mult_pos_pos [OF assms(1), of "2 ^ j"]] blen_shift [OF assms(1), of j]
    assms(2) pos
  have "2 ^ f \<le> m * 2 ^ j" and "m * 2 ^ j < 2 ^ Suc f"
    by (simp_all add: j_def)
  then show F0: "0 \<le> m * 2 ^ (Suc f - blen m) - 2 ^ f"
    and F1: "m * 2 ^ (Suc f - blen m) - 2 ^ f < 2 ^ f"
    by (simp_all add: j_def)
  have x: "x - int j = int (blen m) - 1 + x + bias e - bias e - int f"
    using assms(2) pos by (simp add: j_def)
  have mF: "m * 2 ^ j = 2 ^ f + F"
    by (simp add: F_def)
  have "round_mag e f m 1 x = round_mag e f (m * 2 ^ j) 1 (x - int j)"
    by (rule round_mag_scale [OF assms(1), symmetric])
  also have "\<dots> = round_mag e f (2 ^ f + F) 1 (int (blen m) - 1 + x + bias e - bias e - int f)"
    by (simp only: x mF)
  also have "\<dots> = (int (blen m) - 1 + x + bias e) * 2 ^ f + F"
    using F0 F1 by (intro round_mag_normal [OF assms(3,4)]) (simp_all add: F_def j_def)
  finally show "round_mag e f m 1 x =
      (int (blen m) - 1 + x + bias e) * 2 ^ f + (m * 2 ^ (Suc f - blen m) - 2 ^ f)"
    by (simp add: F_def j_def)
qed

lemma widen_narrow_int:
  assumes "0 \<le> W" and "W < 2 ^ 32" and "expo_of 8 23 W \<noteq> 255"
  defines "Y \<equiv> round_to 11 52 (sign_of 8 23 W) \<bar>fst (valof 8 23 W)\<bar> 1 (snd (valof 8 23 W))"
  shows "0 \<le> Y" and "Y < 2 ^ 64" and "expo_of 11 52 Y \<noteq> 2047"
    and "sign_of 11 52 Y = sign_of 8 23 W"
    and "round_to 8 23 (sign_of 8 23 W) \<bar>fst (valof 11 52 Y)\<bar> 1 (snd (valof 11 52 Y)) = W"
proof -
  define s where "s = sign_of 8 23 W"
  define m where "m = \<bar>fst (valof 8 23 W)\<bar>"
  define x where "x = snd (valof 8 23 W)"
  have orig: "round_to 8 23 s m 1 x = W"
    unfolding s_def m_def x_def using assms(1,2,3) by (intro round_to_valof) simp_all
  have Y: "Y = (if s then 2 ^ 63 else 0) + (if m = 0 then 0 else round_mag 11 52 m 1 x)"
    by (simp add: Y_def round_to_def s_def m_def x_def)
  have "0 \<le> Y \<and> Y < 2 ^ 64 \<and> expo_of 11 52 Y \<noteq> 2047 \<and> sign_of 11 52 Y = s \<and>
      round_to 8 23 s \<bar>fst (valof 11 52 Y)\<bar> 1 (snd (valof 11 52 Y)) = W"
  proof (cases "m = 0")
    case True
    have "Y = (if s then 2 ^ (11 + 52) else 0) + 0 * 2 ^ 52 + 0"
      by (simp add: Y True)
    from fields_of_join [OF _ _ _ _ this] have f: "frac_of 11 52 Y = 0" "expo_of 11 52 Y = 0"
      "sign_of 11 52 Y = s" "0 \<le> Y" "Y < 2 ^ (11 + 52 + 1)"
      by simp_all
    from orig True have "(if s then 2 ^ (8 + 23) else 0) = W"
      by (simp add: round_to_def)
    with f show ?thesis
      by (simp add: valof_subnormal round_to_def)
  next
    case False
    then have pos: "0 < m"
      by (simp add: m_def)
    have mx: "m < 2 ^ 24 \<and> - 149 \<le> x \<and> x \<le> 104"
    proof (cases "expo_of 8 23 W = 0")
      case True
      with fields_bounds(1,2) [of 8 23 W] show ?thesis
        by (auto simp: m_def x_def valof_subnormal bias_def)
    next
      case False
      with fields_bounds(3,4) [of 8 23 W] assms(3)
      have e: "1 \<le> expo_of 8 23 W" "expo_of 8 23 W \<le> 254"
        by simp_all
      with fields_bounds(1,2) [of 8 23 W] show ?thesis
        by (auto simp: m_def x_def valof_normal bias_def)
    qed
    from blen_bounds [OF pos] mx have "(2::int) ^ (blen m - 1) < 2 ^ 24"
      by linarith
    then have "blen m - 1 < 24"
      by (simp only: power_strict_increasing_iff)
    then have bl: "blen m \<le> Suc 52"
      by simp
    from pos have bl1: "1 \<le> blen m"
      by (simp add: blen.simps [of m])
    define E where "E = int (blen m) - 1 + x + bias 11"
    define j where "j = Suc 52 - blen m"
    define F where "F = m * 2 ^ j - 2 ^ 52"
    have b24: "int (blen m) \<le> 24" and b1: "1 \<le> int (blen m)"
      using bl1 \<open>blen m - 1 < 24\<close> by linarith+
    have bias11: "bias 11 = 1023"
      by (simp add: bias_def)
    have E: "1 \<le> E" "E < 2 ^ 11 - 1"
      using mx b24 b1 by (simp_all add: E_def bias11)
    from round_mag_any [OF pos bl E [unfolded E_def]]
    have rm: "round_mag 11 52 m 1 x = E * 2 ^ 52 + F" and F: "0 \<le> F" "F < 2 ^ 52"
      by (simp_all add: E_def F_def j_def)
    have "Y = (if s then 2 ^ (11 + 52) else 0) + E * 2 ^ 52 + F"
      using False by (simp add: Y rm)
    from fields_of_join [OF F _ _ this] E
    have f: "frac_of 11 52 Y = F" "expo_of 11 52 Y = E" "sign_of 11 52 Y = s" "0 \<le> Y"
      "Y < 2 ^ (11 + 52 + 1)"
      by simp_all
    have v: "valof 11 52 Y = (if s then - (m * 2 ^ j) else m * 2 ^ j, x - int j)"
      using valof_normal [of 11 52 Y] E(1) bl bl1
      by (simp add: f F_def E_def j_def bias_def)
    have "round_to 8 23 s \<bar>fst (valof 11 52 Y)\<bar> 1 (snd (valof 11 52 Y)) =
        round_to 8 23 s (m * 2 ^ j) 1 (x - int j)"
      using pos by (simp add: v)
    also have "\<dots> = round_to 8 23 s m 1 x"
      using pos by (simp add: round_to_def round_mag_scale [OF pos])
    finally show ?thesis
      using f E orig by simp
  qed
  then show "0 \<le> Y" and "Y < 2 ^ 64" and "expo_of 11 52 Y \<noteq> 2047"
    and "sign_of 11 52 Y = sign_of 8 23 W"
    and "round_to 8 23 (sign_of 8 23 W) \<bar>fst (valof 11 52 Y)\<bar> 1 (snd (valof 11 52 Y)) = W"
    by (simp_all add: s_def)
qed

lemma narrow_infinity:
  "float64_to_float32 (Infinity True) = 0xFF800000"
  "float64_to_float32 (Infinity False) = 0x7F800000"
  by code_simp+

lemma narrow_widen:
  assumes "\<not> is_nan 8 23 (uint w)"
  shows "float64_to_float32 (float32_to_float64 w) = w"
proof (cases "is_inf 8 23 (uint w)")
  case True
  have "uint w < 2 ^ (8 + 23 + 1)"
    using uint_bounded [of w] by simp
  then have "(if sign_of 8 23 (uint w) then 2 ^ (8 + 23) else 0) +
      expo_of 8 23 (uint w) * 2 ^ 23 + frac_of 8 23 (uint w) = uint w"
    by (intro fields_join) simp_all
  moreover from True have "expo_of 8 23 (uint w) = 255" and "frac_of 8 23 (uint w) = 0"
    by (simp_all add: is_inf_def)
  ultimately have "uint w = (if sign_of 8 23 (uint w) then 2 ^ 31 else 0) + 255 * 2 ^ 23"
    by (auto split: if_splits)
  then have "word_of_int (uint w) =
      (word_of_int ((if sign_of 8 23 (uint w) then 2 ^ 31 else 0) + 255 * 2 ^ 23) :: float32)"
    by (rule arg_cong)
  then have "w = (if sign_of 8 23 (uint w) then 0xFF800000 else 0x7F800000)"
    by (simp split: if_splits)
  moreover have "float32_to_float64 w = Infinity (sign_of 8 23 (uint w))"
    using assms True by (simp add: float32_to_float64_def)
  ultimately show ?thesis
    by (auto simp: narrow_infinity split: if_splits)
next
  case False
  with assms have fin: "expo_of 8 23 (uint w) \<noteq> 255"
    by (auto simp: is_nan_def is_inf_def)
  define Y where "Y = round_to 11 52 (sign_of 8 23 (uint w)) \<bar>fst (valof 8 23 (uint w))\<bar> 1
      (snd (valof 8 23 (uint w)))"
  have "uint w < 2 ^ 32"
    using uint_bounded [of w] by simp
  from widen_narrow_int [OF _ this fin, folded Y_def]
  have Y: "0 \<le> Y" "Y < 2 ^ 64" "expo_of 11 52 Y \<noteq> 2047"
    "sign_of 11 52 Y = sign_of 8 23 (uint w)"
    "round_to 8 23 (sign_of 8 23 (uint w)) \<bar>fst (valof 11 52 Y)\<bar> 1 (snd (valof 11 52 Y)) =
       uint w"
    by simp_all
  have widen: "float32_to_float64 w = word_of_int Y"
    using assms False by (simp add: float32_to_float64_def f64_of_def v32_def valof_sign Y_def)
  have u: "uint (word_of_int Y :: float64) = Y"
    using Y(1,2) by (simp add: uint_word_of_int take_bit_int_eq_self)
  have "float64_to_float32 (word_of_int Y) =
      word_of_int (round_to 8 23 (sign_of 11 52 Y) \<bar>fst (valof 11 52 Y)\<bar> 1
        (snd (valof 11 52 Y)))"
    using Y(3)
    by (simp add: float64_to_float32_def isNaN_def isInf_def is_nan_def is_inf_def u f32_of_def
        v64_def sign64_def valof_sign)
  also have "\<dots> = w"
    by (simp add: Y(4,5))
  finally show ?thesis
    by (simp add: widen)
qed

text \<open>
  C2. For every finite Number \<open>v\<close>, decoding the two cells that encode \<open>v\<close> gives
  exactly \<open>v\<close> narrowed to single precision (the binary32 value nearest to \<open>v\<close>, read
  back as a Number); where \<open>v\<close> is itself a single-precision value, that is \<open>v\<close>. For
  0.0, 7.0, 12.0 and -40.0 the result is the Number itself; for 3.14159 it is the Number
  with the pattern \<open>0x400921FA00000000\<close>.
\<close>

theorem C2_roundtrip:
  "(isFinite v \<longrightarrow>
      registersToFloat32 (fst (float32ToRegisters v)) (snd (float32ToRegisters v)) =
        float32_to_float64 (float64_to_float32 v)) \<and>
   (\<not> is_nan 8 23 (uint w) \<longrightarrow>
      registersToFloat32 (fst (float32ToRegisters (float32_to_float64 w)))
        (snd (float32ToRegisters (float32_to_float64 w))) = float32_to_float64 w) \<and>
   registersToFloat32 (fst (float32ToRegisters (literal 0 10)))
     (snd (float32ToRegisters (literal 0 10))) = literal 0 10 \<and>
   registersToFloat32 (fst (float32ToRegisters (literal 70 10)))
     (snd (float32ToRegisters (literal 70 10))) = literal 70 10 \<and>
   registersToFloat32 (fst (float32ToRegisters (literal 120 10)))
     (snd (float32ToRegisters (literal 120 10))) = literal 120 10 \<and>
   registersToFloat32 (fst (float32ToRegisters (literal (- 400) 10)))
     (snd (float32ToRegisters (literal (- 400) 10))) = literal (- 400) 10 \<and>
   registersToFloat32 (fst (float32ToRegisters (literal 314159 100000)))
     (snd (float32ToRegisters (literal 314159 100000))) = 0x400921FA00000000"
proof -
  have "float32_to_float64 (float64_to_float32 (literal 0 10)) = literal 0 10"
    by code_simp
  moreover have "float32_to_float64 (float64_to_float32 (literal 70 10)) = literal 70 10"
    by code_simp
  moreover have "float32_to_float64 (float64_to_float32 (literal 120 10)) = literal 120 10"
    by code_simp
  moreover have
    "float32_to_float64 (float64_to_float32 (literal (- 400) 10)) = literal (- 400) 10"
    by code_simp
  moreover have
    "float32_to_float64 (float64_to_float32 (literal 314159 100000)) = 0x400921FA00000000"
    by code_simp
  moreover have "\<not> is_nan 8 23 (uint w) \<longrightarrow>
      float32_to_float64 (float64_to_float32 (float32_to_float64 w)) = float32_to_float64 w"
    by (simp add: narrow_widen)
  ultimately show ?thesis
    by (simp only: registers_roundtrip simp_thms)
qed

theorem C2_roundtrip_witness:
  "isFinite (literal 314159 100000) \<and>
   registersToFloat32 (fst (float32ToRegisters (literal 314159 100000)))
     (snd (float32ToRegisters (literal 314159 100000))) =
   float32_to_float64 (float64_to_float32 (literal 314159 100000)) \<and>
   \<not> is_nan 8 23 (uint (0x40490FD0 :: float32)) \<and>
   registersToFloat32 (fst (float32ToRegisters (float32_to_float64 0x40490FD0)))
     (snd (float32ToRegisters (float32_to_float64 0x40490FD0))) = float32_to_float64 0x40490FD0"
proof -
  have fin: "isFinite (literal 314159 100000)"
    by code_simp
  have num: "\<not> is_nan 8 23 (uint (0x40490FD0 :: float32))"
    by code_simp
  from C2_roundtrip [of "literal 314159 100000" "0x40490FD0"] fin num show ?thesis
    by blast
qed

section \<open>The memory vector: address validity\<close>

lemma setFloat32Value_length: "length (setFloat32Value a v rs) = length rs"
  by (simp add: setFloat32Value_def Let_def)

lemma initial_fields:
  "coils initial_state = [300 \<mapsto> True, 301 \<mapsto> False, 302 \<mapsto> True]"
  "chillerData initial_state =
     \<lparr>leavingTempSettings = c7_0, enteringTemp = c12_0, leavingTemp = c7_5\<rparr>"
  "console initial_state = []"
  by (simp_all add: initial_state_def initializeDefaultValues_def module_state_def)

lemma initial_length: "length (holdingRegisters initial_state) = 1000"
  by (simp add: initial_state_def initializeDefaultValues_def module_state_def
      setFloat32Value_length)

lemma setRegister_fields:
  "length (holdingRegisters (setRegister a v s)) = length (holdingRegisters s)"
  "coils (setRegister a v s) = coils s"
  "chillerData (setRegister a v s) = chillerData s"
  by (simp_all add: setRegister_def)

lemma setCoil_fields:
  "holdingRegisters (setCoil a b s) = holdingRegisters s"
  "chillerData (setCoil a b s) = chillerData s"
  by (simp_all add: setCoil_def)

text \<open>
  C3, as stated: every register or coil operation at an address outside the valid range is
  logged as invalid. It fails for the getters, which log nothing: reading holding
  register 1000 and reading coil 299 return 0 and false and leave no invalid-address line
  on the console.
\<close>

theorem C3_reads_not_logged:
  "getHoldingRegister initial_state 1000 1 = 0 \<and>
   InvalidRegister 1000 \<notin>
     set (console (snd (vector (ReadHoldingRegister 1000 1) initial_state))) \<and>
   getCoil initial_state 299 = False \<and>
   InvalidCoil 299 \<notin> set (console (snd (vector (ReadCoil 299) initial_state)))"
  by (simp add: initial_fields initial_length getHoldingRegister_def getCoil_def)

text \<open>
  C3, amended. With the register array at its 1000 cells: outside \<open>[0, 1000)\<close> a read
  of a holding register returns 0 and leaves the state as it is, and a write changes
  nothing but the console, which gains one invalid-register line; inside, a read returns
  the cell and a write stores the value. Outside \<open>{300, 301, 302}\<close> a read of a coil
  returns false and leaves the state as it is, and a write changes nothing but the
  console, which gains one invalid-coil line; inside, a read returns the coil and a write
  stores the value. No operation raises (each is a total function).
\<close>

theorem C3_address_validity:
  assumes "length (holdingRegisters s) = 1000"
  shows
  "(addr < 0 \<or> 1000 \<le> addr \<longrightarrow>
      getHoldingRegister s addr unitID = 0 \<and>
      snd (vector (ReadHoldingRegister addr unitID) s) = s \<and>
      setRegister addr val s = s\<lparr>console := console s @ [InvalidRegister addr]\<rparr>) \<and>
   (0 \<le> addr \<and> addr < 1000 \<longrightarrow>
      getHoldingRegister s addr unitID = holdingRegisters s ! nat addr \<and>
      setRegister addr val s =
        s\<lparr>holdingRegisters := (holdingRegisters s)[nat addr := val],
          console := console s @ [RegisterSet addr val]\<rparr> \<and>
      getHoldingRegister (setRegister addr val s) addr unitID = val) \<and>
   (caddr \<notin> {300, 301, 302} \<longrightarrow>
      getCoil s caddr = False \<and>
      snd (vector (ReadCoil caddr) s) = s \<and>
      setCoil caddr b s = s\<lparr>console := console s @ [InvalidCoil caddr]\<rparr>) \<and>
   (caddr \<in> {300, 301, 302} \<longrightarrow>
      getCoil s caddr = truthy (coils s caddr) \<and>
      setCoil caddr b s =
        s\<lparr>coils := (coils s)(caddr \<mapsto> b), console := console s @ [CoilSet caddr b]\<rparr> \<and>
      getCoil (setCoil caddr b s) caddr = b)"
proof -
  have regs_out: "addr < 0 \<or> 1000 \<le> addr \<longrightarrow>
      getHoldingRegister s addr unitID = 0 \<and>
      snd (vector (ReadHoldingRegister addr unitID) s) = s \<and>
      setRegister addr val s = s\<lparr>console := console s @ [InvalidRegister addr]\<rparr>"
    using assms by (auto simp: getHoldingRegister_def setRegister_def)
  have regs_in: "0 \<le> addr \<and> addr < 1000 \<longrightarrow>
      getHoldingRegister s addr unitID = holdingRegisters s ! nat addr \<and>
      setRegister addr val s =
        s\<lparr>holdingRegisters := (holdingRegisters s)[nat addr := val],
          console := console s @ [RegisterSet addr val]\<rparr> \<and>
      getHoldingRegister (setRegister addr val s) addr unitID = val"
    using assms by (auto simp: getHoldingRegister_def setRegister_def)
  have coils_out: "caddr \<notin> {300, 301, 302} \<longrightarrow>
      getCoil s caddr = False \<and>
      snd (vector (ReadCoil caddr) s) = s \<and>
      setCoil caddr b s = s\<lparr>console := console s @ [InvalidCoil caddr]\<rparr>"
    by (auto simp: getCoil_def setCoil_def)
  have coils_in: "caddr \<in> {300, 301, 302} \<longrightarrow>
      getCoil s caddr = truthy (coils s caddr) \<and>
      setCoil caddr b s =
        s\<lparr>coils := (coils s)(caddr \<mapsto> b), console := console s @ [CoilSet caddr b]\<rparr> \<and>
      getCoil (setCoil caddr b s) caddr = b"
    by (auto simp: getCoil_def setCoil_def truthy_def)
  from regs_out regs_in coils_out coils_in show ?thesis
    by blast
qed

theorem C3_address_validity_witness:
  "length (holdingRegisters initial_state) = 1000 \<and>
   getHoldingRegister initial_state (- 1) 1 = 0 \<and>
   getHoldingRegister initial_state 1000 1 = 0 \<and>
   holdingRegisters (setRegister 1000 5 initial_state) = holdingRegisters initial_state \<and>
   console (setRegister 1000 5 initial_state) = [InvalidRegister 1000] \<and>
   getCoil initial_state 299 = False \<and>
   getCoil initial_state 303 = False \<and>
   coils (setCoil 400 True initial_state) = coils initial_state \<and>
   console (setCoil 400 True initial_state) = [InvalidCoil 400] \<and>
   getHoldingRegister (setRegister 999 5 initial_state) 999 1 = 5 \<and>
   getCoil (setCoil 301 True initial_state) 301 = True"
proof -
  have len: "length (holdingRegisters initial_state) = 1000"
    by (rule initial_length)
  note at = C3_address_validity [OF len]
  have below: "getHoldingRegister initial_state (- 1) 1 = 0 \<and> getCoil initial_state 299 = False"
    using at [of "- 1" 1 5 299 True] by simp
  have above: "getHoldingRegister initial_state 1000 1 = 0 \<and> getCoil initial_state 303 = False"
    using at [of 1000 1 5 303 True] by simp
  have "setRegister 1000 5 initial_state =
      initial_state\<lparr>console := console initial_state @ [InvalidRegister 1000]\<rparr>"
    using at [of 1000 1 5 303 True] by simp
  then have rejected: "holdingRegisters (setRegister 1000 5 initial_state) =
      holdingRegisters initial_state \<and>
      console (setRegister 1000 5 initial_state) = [InvalidRegister 1000]"
    by (simp add: initial_fields)
  have "setCoil 400 True initial_state =
      initial_state\<lparr>console := console initial_state @ [InvalidCoil 400]\<rparr>"
    using at [of 0 1 5 400 True] by simp
  then have ignored: "coils (setCoil 400 True initial_state) = coils initial_state \<and>
      console (setCoil 400 True initial_state) = [InvalidCoil 400]"
    by (simp add: initial_fields)
  have inside: "0 \<le> (999::int) \<and> (999::int) < 1000" "(301::int) \<in> {300, 301, 302}"
    by simp_all
  have stored: "getHoldingRegister (setRegister 999 5 initial_state) 999 1 = 5 \<and>
      getCoil (setCoil 301 True initial_state) 301 = True"
    using at [of 999 1 5 301 True] inside by blast
  from len below above rejected ignored stored show ?thesis
    by simp
qed

text \<open>
  C10. A read of an input register returns 0 at every address and in every state, also
  after a tick has published: in the initial state holding register 0 reads \<open>0x40E0\<close>,
  the high cell of the published 7.0, and input register 0 reads 0.
\<close>

theorem C10_input_registers:
  "getInputRegister s addr = 0 \<and>
   fst (vector (ReadInputRegister addr) s) = RegisterValue 0 \<and>
   getInputRegister (tick env s) addr = 0 \<and>
   getHoldingRegister initial_state 0 1 = 0x40E0 \<and>
   getInputRegister initial_state 0 = 0"
proof -
  have "getHoldingRegister initial_state 0 1 = 0x40E0"
    by code_simp
  then show ?thesis
    by (simp add: getInputRegister_def)
qed

section \<open>The tick, field by field\<close>

lemma handle_reset_fields:
  "holdingRegisters (handle_reset s) = holdingRegisters s"
  "coils (handle_reset s) = (coils s)(301 \<mapsto> False)"
  "chillerData (handle_reset s) =
     \<lparr>leavingTempSettings = c7_0, enteringTemp = c12_0, leavingTemp = c7_5\<rparr>"
  by (simp_all add: handle_reset_def)

lemma read_setting_fields:
  "holdingRegisters (read_setting s) = holdingRegisters s"
  "coils (read_setting s) = coils s"
  "console (read_setting s) = console s"
  "enteringTemp (chillerData (read_setting s)) = enteringTemp (chillerData s)"
  "leavingTemp (chillerData (read_setting s)) = leavingTemp (chillerData s)"
  "leavingTempSettings (chillerData (read_setting s)) =
     (if js_gt (getFloat32Value (holdingRegisters s) 0) c0 \<and>
         js_lt (getFloat32Value (holdingRegisters s) 0) c30
      then getFloat32Value (holdingRegisters s) 0
      else leavingTempSettings (chillerData s))"
  by (simp_all add: read_setting_def Let_def)

lemma simulate_fields:
  "holdingRegisters (simulate env s) = holdingRegisters s"
  "coils (simulate env s) = coils s"
  "console (simulate env s) = console s"
  "leavingTempSettings (chillerData (simulate env s)) = leavingTempSettings (chillerData s)"
  "enteringTemp (chillerData (simulate env s)) =
     js_add c12_0 (js_mul (Math_sin env (js_div (Date_now env) c10000)) c2_0)"
  "leavingTemp (chillerData (simulate env s)) =
     js_add (leavingTemp (chillerData s))
       (js_mul (js_sub (leavingTempSettings (chillerData s)) (leavingTemp (chillerData s))) c0_1)"
  by (simp_all add: simulate_def Let_def)

lemma publish_fields:
  "coils (publish s) = coils s"
  "chillerData (publish s) = chillerData s"
  by (simp_all add: publish_def)

lemma tick_chillerData:
  "chillerData (tick env s) =
     (let s1 = (if truthy (coils s 301) then handle_reset s else s);
          s2 = read_setting s1
      in chillerData (if truthy (coils s 302) then simulate env s2 else s2))"
  by (simp add: tick_def Let_def publish_fields)

lemma tick_coils:
  "coils (tick env s) = (if truthy (coils s 301) then (coils s)(301 \<mapsto> False) else coils s)"
  by (simp add: tick_def Let_def publish_fields simulate_fields read_setting_fields
      handle_reset_fields)

lemma tick_registers:
  "holdingRegisters (tick env s) =
     (if truthy (coils s 300)
      then setFloat32Value 4 (leavingTemp (chillerData (tick env s)))
             (setFloat32Value 2 (enteringTemp (chillerData (tick env s)))
               (setFloat32Value 0 (leavingTempSettings (chillerData (tick env s)))
                 (holdingRegisters s)))
      else holdingRegisters s)"
  by (simp add: tick_def Let_def publish_def simulate_fields read_setting_fields
      handle_reset_fields)

lemma tick_setting:
  "leavingTempSettings (chillerData (tick env s)) =
     (if js_gt (getFloat32Value (holdingRegisters s) 0) c0 \<and>
         js_lt (getFloat32Value (holdingRegisters s) 0) c30
      then getFloat32Value (holdingRegisters s) 0
      else if truthy (coils s 301) then c7_0
      else leavingTempSettings (chillerData s))"
  by (simp add: tick_chillerData Let_def simulate_fields read_setting_fields handle_reset_fields)

text \<open>No request and no tick changes the length of the register array.\<close>

lemma tick_length: "length (holdingRegisters (tick env s)) = length (holdingRegisters s)"
  by (simp add: tick_registers setFloat32Value_length)

lemma step_length: "length (holdingRegisters (step ev s)) = length (holdingRegisters s)"
proof (cases ev)
  case (Request r)
  then show ?thesis
    by (cases r) (simp_all add: setRegister_fields setCoil_fields)
next
  case (Tick env)
  then show ?thesis
    by (simp add: tick_length)
qed

lemma fold_length: "length (holdingRegisters (fold step evs s)) = length (holdingRegisters s)"
  by (induction evs arbitrary: s) (simp_all add: step_length)

lemma run_length: "length (holdingRegisters (run evs)) = 1000"
  by (simp add: run_def fold_length initial_length)

lemma range_literals:
  "\<not> isNaN c0" "\<not> isInf c0" "\<not> isNaN c30" "\<not> isInf c30"
  "js_gt c7_0 c0" "js_lt c7_0 c30"
  "\<not> js_lt c0 0" "\<not> js_lt c0 0x8000000000000000"
  by code_simp+

section \<open>The tick: simulation, ingestion, publishing, coils\<close>

text \<open>
  C1. With the register array at its 1000 cells: in a tick that finds coil 302 true, the
  entering temperature becomes \<open>12.0 + sin(now / 10000) * 2.0\<close> and the leaving
  temperature becomes \<open>leaving + (setting - leaving) * 0.1\<close>, where \<open>setting\<close> is the
  setting after the reset check and the ingestion of registers 0-1 of the same tick and
  \<open>leaving\<close> the leaving temperature after the reset check; in a tick that finds
  coil 302 false, both temperatures end the tick with the values they have after the reset
  check.
\<close>

theorem C1_simulation_step:
  assumes "length (holdingRegisters s) = 1000"
  shows "let reset = truthy (coils s 301);
             v = getFloat32Value (holdingRegisters s) 0;
             setting1 = (if reset then c7_0 else leavingTempSettings (chillerData s));
             setting2 = (if js_gt v c0 \<and> js_lt v c30 then v else setting1);
             entering1 = (if reset then c12_0 else enteringTemp (chillerData s));
             leaving1 = (if reset then c7_5 else leavingTemp (chillerData s));
             cd = chillerData (tick env s)
         in (truthy (coils s 302) \<longrightarrow>
               enteringTemp cd =
                 js_add c12_0 (js_mul (Math_sin env (js_div (Date_now env) c10000)) c2_0) \<and>
               leavingTemp cd = js_add leaving1 (js_mul (js_sub setting2 leaving1) c0_1)) \<and>
            (\<not> truthy (coils s 302) \<longrightarrow>
               enteringTemp cd = entering1 \<and> leavingTemp cd = leaving1)"
  by (simp add: tick_chillerData Let_def simulate_fields read_setting_fields handle_reset_fields)

theorem C1_simulation_step_witness:
  "length (holdingRegisters initial_state) = 1000 \<and>
   truthy (coils initial_state 302) \<and>
   enteringTemp (chillerData (tick env0 initial_state)) = c12_0 \<and>
   leavingTemp (chillerData (tick env0 initial_state)) = literal 745 100 \<and>
   length (holdingRegisters still_state) = 1000 \<and>
   \<not> truthy (coils still_state 302) \<and>
   enteringTemp (chillerData (tick env0 still_state)) = c12_0 \<and>
   leavingTemp (chillerData (tick env0 still_state)) = c7_5"
proof -
  have len: "length (holdingRegisters initial_state) = 1000"
    by (rule initial_length)
  have on: "truthy (coils initial_state 302)" and no_reset: "\<not> truthy (coils initial_state 301)"
    by (simp_all add: initial_fields truthy_def)
  have v: "getFloat32Value (holdingRegisters initial_state) 0 = c7_0"
    by code_simp
  have sine: "js_add c12_0 (js_mul (Math_sin env0 (js_div (Date_now env0) c10000)) c2_0) = c12_0"
    by code_simp
  have approach: "js_add c7_5 (js_mul (js_sub c7_0 c7_5) c0_1) = literal 745 100"
    by code_simp
  have moving: "enteringTemp (chillerData (tick env0 initial_state)) = c12_0 \<and>
      leavingTemp (chillerData (tick env0 initial_state)) = literal 745 100"
    using C1_simulation_step [OF len, of env0] on no_reset v sine approach
    by (simp add: Let_def initial_fields range_literals)
  have len': "length (holdingRegisters still_state) = 1000"
    by (simp add: still_state_def setCoil_fields initial_length)
  have off: "\<not> truthy (coils still_state 302)" and no_reset': "\<not> truthy (coils still_state 301)"
    by (simp_all add: still_state_def setCoil_def initial_fields truthy_def)
  have holding: "enteringTemp (chillerData (tick env0 still_state)) = c12_0 \<and>
      leavingTemp (chillerData (tick env0 still_state)) = c7_5"
    using C1_simulation_step [OF len', of env0] off no_reset'
    by (simp add: Let_def still_state_def setCoil_fields initial_fields)
  from len on moving len' off holding show ?thesis
    by blast
qed

text \<open>
  C4. With the register array at its 1000 cells: the setting at the end of a tick is the
  Number \<open>v\<close> decoded from registers 0-1 if \<open>0 < v\<close> and \<open>v < 30\<close>, and otherwise
  the setting after the reset check of that tick (7.0 if coil 301 was true, the previous
  setting if not).
\<close>

theorem C4_setting_ingestion:
  assumes "length (holdingRegisters s) = 1000"
  shows "let v = registersToFloat32 (holdingRegisters s ! 0) (holdingRegisters s ! 1);
             kept = (if truthy (coils s 301) then c7_0 else leavingTempSettings (chillerData s))
         in leavingTempSettings (chillerData (tick env s)) =
              (if js_gt v c0 \<and> js_lt v c30 then v else kept)"
  by (simp add: tick_chillerData Let_def simulate_fields read_setting_fields handle_reset_fields
      getFloat32Value_def)

theorem C4_setting_ingestion_witness:
  "length (holdingRegisters written_state) = 1000 \<and>
   registersToFloat32 (holdingRegisters written_state ! 0) (holdingRegisters written_state ! 1) =
     literal 15 1 \<and>
   leavingTempSettings (chillerData (tick env0 written_state)) = literal 15 1 \<and>
   length (holdingRegisters reset_rejected_state) = 1000 \<and>
   registersToFloat32 (holdingRegisters reset_rejected_state ! 0)
     (holdingRegisters reset_rejected_state ! 1) = literal 35 1 \<and>
   leavingTempSettings (chillerData (tick env0 reset_rejected_state)) = c7_0"
proof -
  have len: "length (holdingRegisters written_state) = 1000"
    by (simp add: written_state_def setRegister_fields initial_length)
  have v: "registersToFloat32 (holdingRegisters written_state ! 0)
      (holdingRegisters written_state ! 1) = literal 15 1"
    by code_simp
  have inside: "js_gt (literal 15 1) c0" "js_lt (literal 15 1) c30"
    by code_simp+
  have adopted: "leavingTempSettings (chillerData (tick env0 written_state)) = literal 15 1"
    using C4_setting_ingestion [OF len, of env0] v inside
    by (simp add: Let_def)
  have len': "length (holdingRegisters reset_rejected_state) = 1000"
    by (simp add: reset_rejected_state_def setRegister_fields setCoil_fields initial_length)
  have v': "registersToFloat32 (holdingRegisters reset_rejected_state ! 0)
      (holdingRegisters reset_rejected_state ! 1) = literal 35 1"
    by code_simp
  have outside: "\<not> js_lt (literal 35 1) c30"
    by code_simp
  have reset: "truthy (coils reset_rejected_state 301)"
    by (simp add: reset_rejected_state_def setCoil_def truthy_def)
  have kept: "leavingTempSettings (chillerData (tick env0 reset_rejected_state)) = c7_0"
    using C4_setting_ingestion [OF len', of env0] v' outside reset
    by (simp add: Let_def)
  from len v adopted len' v' kept show ?thesis
    by blast
qed

text \<open>
  C5. A tick that finds coil 300 false writes no register: the register array after the
  tick is the register array before it, whatever the tick did to the three process values.
\<close>

theorem C5_publish_gating:
  "\<not> truthy (coils s 300) \<Longrightarrow> holdingRegisters (tick env s) = holdingRegisters s"
  by (simp add: tick_registers)

theorem C5_publish_gating_witness:
  "\<not> truthy (coils paused_state 300) \<and>
   holdingRegisters (tick env0 paused_state) = holdingRegisters paused_state \<and>
   leavingTemp (chillerData (tick env0 paused_state)) \<noteq> leavingTemp (chillerData paused_state)"
proof -
  have off: "\<not> truthy (coils paused_state 300)"
    by (simp add: paused_state_def setCoil_def truthy_def)
  have moved:
    "leavingTemp (chillerData (tick env0 paused_state)) \<noteq> leavingTemp (chillerData paused_state)"
    by code_simp
  from C5_publish_gating [OF off, of env0] off moved show ?thesis
    by blast
qed

text \<open>
  C9. A tick changes the coils in one way only: if it finds coil 301 true it stores false
  at 301. Coils 300 and 302 are as before the tick, and a coil that is true after the tick
  was true before it.
\<close>

theorem C9_tick_coils:
  "coils (tick env s) = (if truthy (coils s 301) then (coils s)(301 \<mapsto> False) else coils s) \<and>
   coils (tick env s) 300 = coils s 300 \<and>
   coils (tick env s) 302 = coils s 302 \<and>
   (truthy (coils (tick env s) a) \<longrightarrow> truthy (coils s a))"
  by (simp add: tick_coils truthy_def)

theorem C9_tick_coils_witness:
  "truthy (coils (tick env0 initial_state) 300) \<and> truthy (coils initial_state 300) \<and>
   truthy (coils reset_state 301) \<and> \<not> truthy (coils (tick env0 reset_state) 301)"
proof -
  have on: "truthy (coils (tick env0 initial_state) 300)"
    by (simp add: tick_coils initial_fields truthy_def)
  have was_on: "truthy (coils initial_state 300)"
    using C9_tick_coils [of env0 initial_state 300] on by simp
  have req: "truthy (coils reset_state 301)"
    by (simp add: reset_state_def setCoil_def truthy_def)
  have "coils (tick env0 reset_state) = (coils reset_state)(301 \<mapsto> False)"
    using C9_tick_coils [of env0 reset_state 301] req by simp
  then have cleared: "\<not> truthy (coils (tick env0 reset_state) 301)"
    by (simp add: truthy_def)
  from on was_on req cleared show ?thesis
    by simp
qed

section \<open>The tick: reset\<close>

text \<open>
  C6, as stated: a tick that finds coil 301 true ends with setting 7.0, entering
  temperature 12.0 and leaving temperature 7.5. It fails where a client has written 15.0 to
  registers 0-1 before requesting the reset, with the simulation on as it is by default:
  the tick ends with setting 15.0 and leaving temperature 8.25.
\<close>

theorem C6_reset_overridden:
  "truthy (coils reset_state 301) \<and>
   leavingTempSettings (chillerData (tick env0 reset_state)) \<noteq> c7_0 \<and>
   leavingTemp (chillerData (tick env0 reset_state)) \<noteq> c7_5"
proof -
  have "truthy (coils reset_state 301)"
    by (simp add: reset_state_def setCoil_def truthy_def)
  moreover have "leavingTempSettings (chillerData (tick env0 reset_state)) = literal 15 1"
    by code_simp
  moreover have "leavingTemp (chillerData (tick env0 reset_state)) = literal 825 100"
    by code_simp
  moreover have "literal 15 1 \<noteq> c7_0" and "literal 825 100 \<noteq> c7_5"
    by code_simp+
  ultimately show ?thesis
    by simp
qed

text \<open>
  C6, amended. With the register array at its 1000 cells, a tick that finds coil 301 true
  resets the three values to 7.0, 12.0 and 7.5 before its other steps and ends with coil
  301 reading false. At the end of the tick the setting is 7.0 if registers 0-1 do not
  decode to a Number strictly between 0 and 30; the entering temperature is 12.0 and the
  leaving temperature 7.5 if coil 302 is false; and if coil 302 is true they are the
  simulation step taken from the reset values: \<open>12.0 + sin(now / 10000) * 2.0\<close> and
  \<open>7.5 + (setting - 7.5) * 0.1\<close> for the setting the tick ends with.
\<close>

theorem C6_reset:
  assumes "length (holdingRegisters s) = 1000" and "truthy (coils s 301)"
  shows "let v = getFloat32Value (holdingRegisters s) 0;
             cd = chillerData (tick env s)
         in chillerData (handle_reset s) =
              \<lparr>leavingTempSettings = c7_0, enteringTemp = c12_0, leavingTemp = c7_5\<rparr> \<and>
            getCoil (tick env s) 301 = False \<and>
            (\<not> (js_gt v c0 \<and> js_lt v c30) \<longrightarrow> leavingTempSettings cd = c7_0) \<and>
            (\<not> truthy (coils s 302) \<longrightarrow> enteringTemp cd = c12_0 \<and> leavingTemp cd = c7_5) \<and>
            (truthy (coils s 302) \<longrightarrow>
               enteringTemp cd =
                 js_add c12_0 (js_mul (Math_sin env (js_div (Date_now env) c10000)) c2_0) \<and>
               leavingTemp cd = js_add c7_5 (js_mul (js_sub (leavingTempSettings cd) c7_5) c0_1))"
  using assms(2)
  by (simp add: tick_chillerData tick_coils getCoil_def Let_def simulate_fields
      read_setting_fields handle_reset_fields)

theorem C6_reset_witness:
  "length (holdingRegisters reset_rejected_state) = 1000 \<and>
   truthy (coils reset_rejected_state 301) \<and>
   truthy (coils reset_rejected_state 302) \<and>
   getCoil (tick env0 reset_rejected_state) 301 = False \<and>
   leavingTempSettings (chillerData (tick env0 reset_rejected_state)) = c7_0 \<and>
   enteringTemp (chillerData (tick env0 reset_rejected_state)) = c12_0 \<and>
   leavingTemp (chillerData (tick env0 reset_rejected_state)) = literal 745 100 \<and>
   length (holdingRegisters reset_still_state) = 1000 \<and>
   truthy (coils reset_still_state 301) \<and>
   \<not> truthy (coils reset_still_state 302) \<and>
   getCoil (tick env0 reset_still_state) 301 = False \<and>
   leavingTempSettings (chillerData (tick env0 reset_still_state)) = c7_0 \<and>
   enteringTemp (chillerData (tick env0 reset_still_state)) = c12_0 \<and>
   leavingTemp (chillerData (tick env0 reset_still_state)) = c7_5"
proof -
  have len: "length (holdingRegisters reset_rejected_state) = 1000"
    by (simp add: reset_rejected_state_def setRegister_fields setCoil_fields initial_length)
  have reset: "truthy (coils reset_rejected_state 301)"
    and on: "truthy (coils reset_rejected_state 302)"
    by (simp_all add: reset_rejected_state_def setCoil_def setRegister_fields initial_fields
        truthy_def)
  have v: "getFloat32Value (holdingRegisters reset_rejected_state) 0 = literal 35 1"
    by code_simp
  have outside: "\<not> js_lt (literal 35 1) c30"
    by code_simp
  have sine: "js_add c12_0 (js_mul (Math_sin env0 (js_div (Date_now env0) c10000)) c2_0) = c12_0"
    by code_simp
  have approach: "js_add c7_5 (js_mul (js_sub c7_0 c7_5) c0_1) = literal 745 100"
    by code_simp
  have moving: "getCoil (tick env0 reset_rejected_state) 301 = False \<and>
      leavingTempSettings (chillerData (tick env0 reset_rejected_state)) = c7_0 \<and>
      enteringTemp (chillerData (tick env0 reset_rejected_state)) = c12_0 \<and>
      leavingTemp (chillerData (tick env0 reset_rejected_state)) = literal 745 100"
    using C6_reset [OF len reset, of env0] on v outside sine approach
    by (simp add: Let_def)
  have len': "length (holdingRegisters reset_still_state) = 1000"
    by (simp add: reset_still_state_def setCoil_fields len)
  have reset': "truthy (coils reset_still_state 301)"
    and off: "\<not> truthy (coils reset_still_state 302)"
    by (simp_all add: reset_still_state_def reset_rejected_state_def setCoil_def truthy_def)
  have v': "getFloat32Value (holdingRegisters reset_still_state) 0 = literal 35 1"
    using v by (simp add: reset_still_state_def setCoil_fields)
  have holding: "getCoil (tick env0 reset_still_state) 301 = False \<and>
      leavingTempSettings (chillerData (tick env0 reset_still_state)) = c7_0 \<and>
      enteringTemp (chillerData (tick env0 reset_still_state)) = c12_0 \<and>
      leavingTemp (chillerData (tick env0 reset_still_state)) = c7_5"
    using C6_reset [OF len' reset', of env0] off v' outside
    by (simp add: Let_def)
  from len reset on moving len' reset' off holding show ?thesis
    by blast
qed

section \<open>The tick: what determines the process values\<close>

text \<open>
  C7, as stated: two ticks that start from equal process values, equal coils and the same
  clock end with equal process values, whatever the registers hold. It fails for the
  initial state and the state in which a client has written 15.0 to registers 0-1: the
  process values and the coils are the same, and the ticks end with settings 7.0 and 15.0.
\<close>

theorem C7_registers_matter:
  "chillerData initial_state = chillerData written_state \<and>
   coils initial_state = coils written_state \<and>
   chillerData (tick env0 initial_state) \<noteq> chillerData (tick env0 written_state)"
proof -
  have "leavingTempSettings (chillerData (tick env0 initial_state)) \<noteq>
        leavingTempSettings (chillerData (tick env0 written_state))"
    by code_simp
  then have "chillerData (tick env0 initial_state) \<noteq> chillerData (tick env0 written_state)"
    by auto
  then show ?thesis
    by (simp add: written_state_def setRegister_fields)
qed

text \<open>
  C7, amended. With both register arrays at their 1000 cells: two ticks that start from
  equal process values, equal coils, the same clock and sine, and equal contents of
  registers 0 and 1 end with equal process values; no other register and nothing on the
  console influences them.
\<close>

theorem C7_determinism:
  assumes "length (holdingRegisters s1) = 1000" and "length (holdingRegisters s2) = 1000"
    and "chillerData s1 = chillerData s2" and "coils s1 = coils s2"
    and "holdingRegisters s1 ! 0 = holdingRegisters s2 ! 0"
    and "holdingRegisters s1 ! 1 = holdingRegisters s2 ! 1"
  shows "chillerData (tick env s1) = chillerData (tick env s2)"
  using assms(3-6)
  by (simp add: tick_chillerData Let_def simulate_def read_setting_def handle_reset_def
      getFloat32Value_def)

theorem C7_determinism_witness:
  "length (holdingRegisters initial_state) = 1000 \<and>
   length (holdingRegisters other_state) = 1000 \<and>
   chillerData initial_state = chillerData other_state \<and>
   coils initial_state = coils other_state \<and>
   holdingRegisters initial_state ! 0 = holdingRegisters other_state ! 0 \<and>
   holdingRegisters initial_state ! 1 = holdingRegisters other_state ! 1 \<and>
   holdingRegisters initial_state \<noteq> holdingRegisters other_state \<and>
   chillerData (tick env0 initial_state) = chillerData (tick env0 other_state)"
proof -
  have len: "length (holdingRegisters initial_state) = 1000"
    by (rule initial_length)
  have len': "length (holdingRegisters other_state) = 1000"
    by (simp add: other_state_def setRegister_fields initial_length)
  have cd: "chillerData initial_state = chillerData other_state"
    and cl: "coils initial_state = coils other_state"
    by (simp_all add: other_state_def setRegister_fields)
  have r0: "holdingRegisters initial_state ! 0 = holdingRegisters other_state ! 0"
    and r1: "holdingRegisters initial_state ! 1 = holdingRegisters other_state ! 1"
    by (simp_all add: other_state_def setRegister_def initial_length)
  have "holdingRegisters initial_state ! 9 \<noteq> holdingRegisters other_state ! 9"
    by code_simp
  then have differ: "holdingRegisters initial_state \<noteq> holdingRegisters other_state"
    by auto
  from C7_determinism [OF len len' cd cl r0 r1, of env0] len len' cd cl r0 r1 differ
  show ?thesis
    by blast
qed

section \<open>The setting stays between 0 and 30\<close>

lemma in_range_proper:
  assumes "js_gt v c0" and "js_lt v c30"
  shows "\<not> isNaN v" and "\<not> isInf v" and "v \<noteq> 0" and "v \<noteq> 0x8000000000000000"
proof -
  show nan: "\<not> isNaN v"
    using assms(2) by (auto simp: js_lt_def)
  show "\<not> isInf v"
  proof
    assume inf: "isInf v"
    from assms(1) nan inf have "\<not> sign64 v"
      by (simp add: js_gt_def js_lt_def range_literals split: if_splits)
    moreover from assms(2) nan inf have "sign64 v"
      by (simp add: js_lt_def range_literals split: if_splits)
    ultimately show False by simp
  qed
  show "v \<noteq> 0"
    using assms(1) range_literals(7) by (auto simp: js_gt_def)
  show "v \<noteq> 0x8000000000000000"
    using assms(1) range_literals(8) by (auto simp: js_gt_def)
qed

lemma vector_chillerData: "chillerData (snd (vector r s)) = chillerData s"
  by (cases r) (simp_all add: setRegister_fields setCoil_fields)

lemma step_setting_in_range:
  assumes "js_gt (leavingTempSettings (chillerData s)) c0"
    and "js_lt (leavingTempSettings (chillerData s)) c30"
  shows "js_gt (leavingTempSettings (chillerData (step ev s))) c0 \<and>
         js_lt (leavingTempSettings (chillerData (step ev s))) c30"
proof (cases ev)
  case (Request r)
  with assms show ?thesis
    by (simp add: vector_chillerData)
next
  case (Tick env)
  with assms show ?thesis
    by (simp add: tick_setting range_literals)
qed

lemma fold_setting_in_range:
  "js_gt (leavingTempSettings (chillerData s)) c0 \<Longrightarrow>
   js_lt (leavingTempSettings (chillerData s)) c30 \<Longrightarrow>
   js_gt (leavingTempSettings (chillerData (fold step evs s))) c0 \<and>
   js_lt (leavingTempSettings (chillerData (fold step evs s))) c30"
proof (induction evs arbitrary: s)
  case Nil
  then show ?case by simp
next
  case (Cons ev evs)
  from step_setting_in_range [OF Cons.prems, of ev] Cons.IH [of "step ev s"]
  show ?case by simp
qed

text \<open>
  C8. The setting starts at 7.0 and every reset stores 7.0; after any sequence of client
  requests and ticks from the initial state the setting \<open>v\<close> satisfies \<open>0 < v\<close> and
  \<open>v < 30\<close>, so it is not NaN, not infinite and neither of the two zeros.
\<close>

theorem C8_setting_in_range:
  "leavingTempSettings (chillerData (run [])) = c7_0 \<and>
   leavingTempSettings (chillerData (handle_reset s)) = c7_0 \<and>
   js_gt (leavingTempSettings (chillerData (run evs))) c0 \<and>
   js_lt (leavingTempSettings (chillerData (run evs))) c30 \<and>
   \<not> isNaN (leavingTempSettings (chillerData (run evs))) \<and>
   \<not> isInf (leavingTempSettings (chillerData (run evs))) \<and>
   leavingTempSettings (chillerData (run evs)) \<noteq> 0 \<and>
   leavingTempSettings (chillerData (run evs)) \<noteq> 0x8000000000000000"
proof -
  have start: "leavingTempSettings (chillerData initial_state) = c7_0"
    by (simp add: initial_fields)
  then have "js_gt (leavingTempSettings (chillerData initial_state)) c0"
    and "js_lt (leavingTempSettings (chillerData initial_state)) c30"
    by (simp_all add: range_literals)
  then have inside: "js_gt (leavingTempSettings (chillerData (run evs))) c0 \<and>
      js_lt (leavingTempSettings (chillerData (run evs))) c30"
    unfolding run_def by (rule fold_setting_in_range)
  with in_range_proper [of "leavingTempSettings (chillerData (run evs))"] start
  show ?thesis
    by (simp add: run_def handle_reset_fields)
qed

end
